theory Spec2Isabelle
  imports Main "HOL-Library.AList" "HOL-Library.Char_ord" "HOL-Library.List_Lexorder"
begin

section \<open>The store: two SQLite tables\<close>

text \<open>
  The program keeps its state in an SQLite file with the tables \<^verbatim>\<open>playback\<close> and
  \<^verbatim>\<open>series_settings\<close>. A table is its list of columns (name and \<^verbatim>\<open>DEFAULT\<close>)
  and its rows in rowid order; a row holds one cell per column, keyed by the column
  name. No statement of the program deletes a row, so rowid order is insertion order.
  A table that was never created is \<open>None\<close>. The primary keys are those of the
  \<^verbatim>\<open>CREATE TABLE\<close> statements: \<^verbatim>\<open>filename\<close>, and
  \<^verbatim>\<open>(series_prefix, series_suffix)\<close>.

  A statement is prepared, then its parameters are bound, then it runs. Preparing a
  statement that names a missing table or column raises \<^verbatim>\<open>OperationalError\<close>;
  binding a Python integer outside the signed 64-bit range raises Python's
  \<^verbatim>\<open>OverflowError\<close>; a statement that raises changes nothing. Text is a list of
  bytes and is compared byte by byte.
\<close>

datatype sqlval = Null | Integer int | Text string

type_synonym row = "(string \<times> sqlval) list"

record table =
  columns :: "(string \<times> sqlval) list"
  rows :: "row list"

record database =
  playback :: "table option"
  series_settings :: "table option"

text \<open>
  What a statement of the program can raise: two kinds of \<^verbatim>\<open>sqlite3.Error\<close>, and
  \<^verbatim>\<open>OverflowError\<close>, which is not one.
\<close>

datatype sql_error = OperationalError | IntegrityError | OverflowError

text \<open>The integers SQLite stores, and the values the binding accepts as parameters.\<close>

definition sqlite_int :: "int \<Rightarrow> bool" where
  "sqlite_int i = (- 9223372036854775808 \<le> i \<and> i < 9223372036854775808)"

definition binds :: "sqlval \<Rightarrow> bool" where
  "binds v = (case v of Integer i \<Rightarrow> sqlite_int i | _ \<Rightarrow> True)"

definition cell :: "row \<Rightarrow> string \<Rightarrow> sqlval" where
  "cell r c = (case map_of r c of Some v \<Rightarrow> v | None \<Rightarrow> Null)"

definition has_cols :: "table \<Rightarrow> string list \<Rightarrow> bool" where
  "has_cols t cs = list_all (\<lambda>c. c \<in> set (map fst (columns t))) cs"

text \<open>\<^verbatim>\<open>SET c1 = v1, c2 = v2\<close> on one row; the other cells keep their value.\<close>

definition assign :: "(string \<times> sqlval) list \<Rightarrow> row \<Rightarrow> row" where
  "assign asg r = map (\<lambda>(c, v). (c, case map_of asg c of Some v' \<Rightarrow> v' | None \<Rightarrow> v)) r"

text \<open>The row an \<^verbatim>\<open>INSERT\<close> builds: the given values, the column default elsewhere.\<close>

definition new_row :: "table \<Rightarrow> (string \<times> sqlval) list \<Rightarrow> row" where
  "new_row t asg = assign asg (columns t)"

text \<open>\<^verbatim>\<open>WHERE c1 = ? AND c2 = ?\<close>: a comparison with \<^verbatim>\<open>NULL\<close> never holds.\<close>

definition wh_match :: "(string \<times> sqlval) list \<Rightarrow> row \<Rightarrow> bool" where
  "wh_match wh r = list_all (\<lambda>(c, v). v \<noteq> Null \<and> cell r c = v) wh"

definition same_key :: "string list \<Rightarrow> row \<Rightarrow> row \<Rightarrow> bool" where
  "same_key key r r' = list_all (\<lambda>c. cell r c \<noteq> Null \<and> cell r' c = cell r c) key"

definition sql_select ::
  "string list \<Rightarrow> (string \<times> sqlval) list \<Rightarrow> table option \<Rightarrow> sql_error + sqlval list list" where
  "sql_select cols wh tab =
     (case tab of
        None \<Rightarrow> Inl OperationalError
      | Some t \<Rightarrow>
          if has_cols t (cols @ map fst wh)
          then Inr (map (\<lambda>r. map (cell r) cols) (filter (wh_match wh) (rows t)))
          else Inl OperationalError)"

definition sql_insert ::
  "string list \<Rightarrow> (string \<times> sqlval) list \<Rightarrow> table option \<Rightarrow> sql_error + table" where
  "sql_insert key asg tab =
     (case tab of
        None \<Rightarrow> Inl OperationalError
      | Some t \<Rightarrow>
          if has_cols t (map fst asg)
          then if list_all binds (map snd asg)
               then if list_ex (same_key key (new_row t asg)) (rows t)
                    then Inl IntegrityError
                    else Inr (t\<lparr>rows := rows t @ [new_row t asg]\<rparr>)
               else Inl OverflowError
          else Inl OperationalError)"

text \<open>\<^verbatim>\<open>INSERT ... ON CONFLICT(key) DO UPDATE SET ...\<close>\<close>

definition sql_upsert ::
  "string list \<Rightarrow> (string \<times> sqlval) list \<Rightarrow> (string \<times> sqlval) list \<Rightarrow> table option
     \<Rightarrow> sql_error + table" where
  "sql_upsert key asg upd tab =
     (case tab of
        None \<Rightarrow> Inl OperationalError
      | Some t \<Rightarrow>
          if has_cols t (map fst asg @ key @ map fst upd)
          then if list_all binds (map snd asg @ map snd upd)
               then if list_ex (same_key key (new_row t asg)) (rows t)
                    then Inr (t\<lparr>rows := map (\<lambda>r. if same_key key (new_row t asg) r
                                                  then assign upd r else r) (rows t)\<rparr>)
                    else Inr (t\<lparr>rows := rows t @ [new_row t asg]\<rparr>)
               else Inl OverflowError
          else Inl OperationalError)"

definition sql_update ::
  "(string \<times> sqlval) list \<Rightarrow> (string \<times> sqlval) list \<Rightarrow> table option \<Rightarrow> sql_error + table" where
  "sql_update asg wh tab =
     (case tab of
        None \<Rightarrow> Inl OperationalError
      | Some t \<Rightarrow>
          if has_cols t (map fst asg @ map fst wh)
          then if list_all binds (map snd asg @ map snd wh)
               then Inr (t\<lparr>rows := map (\<lambda>r. if wh_match wh r then assign asg r else r)
                                      (rows t)\<rparr>)
               else Inl OverflowError
          else Inl OperationalError)"

text \<open>
  \<^verbatim>\<open>ALTER TABLE ... ADD COLUMN c ... DEFAULT d\<close>: every existing row reads the default
  in the new column.
\<close>

definition sql_add_column :: "string \<Rightarrow> sqlval \<Rightarrow> table option \<Rightarrow> sql_error + table" where
  "sql_add_column c d tab =
     (case tab of
        None \<Rightarrow> Inl OperationalError
      | Some t \<Rightarrow>
          if has_cols t [c] then Inl OperationalError
          else Inr \<lparr>columns = columns t @ [(c, d)], rows = map (\<lambda>r. r @ [(c, d)]) (rows t)\<rparr>)"

definition sql_create_if_not_exists :: "(string \<times> sqlval) list \<Rightarrow> table option \<Rightarrow> table" where
  "sql_create_if_not_exists cols tab =
     (case tab of None \<Rightarrow> \<lparr>columns = cols, rows = []\<rparr> | Some t \<Rightarrow> t)"

section \<open>Schema and migration\<close>

definition playback_schema :: "(string \<times> sqlval) list" where
  "playback_schema =
     [(''filename'', Null), (''position'', Null), (''duration'', Null), (''percent'', Null),
      (''status'', Null), (''series_prefix'', Null), (''series_suffix'', Null),
      (''description'', Null), (''outro_triggered'', Integer 0)]"

definition settings_schema :: "(string \<times> sqlval) list" where
  "settings_schema =
     [(''series_prefix'', Null), (''series_suffix'', Null), (''autoplay'', Integer 0),
      (''skip_intro'', Integer 0), (''skip_outro'', Integer 0), (''intro_start'', Null),
      (''intro_end'', Null), (''credits_duration'', Null), (''description'', Null)]"

definition playback_key :: "string list" where
  "playback_key = [''filename'']"

definition settings_key :: "string list" where
  "settings_key = [''series_prefix'', ''series_suffix'']"

text \<open>
  The two migrations of \<^verbatim>\<open>init_db\<close>: a probing \<^verbatim>\<open>SELECT\<close>, and the
  \<^verbatim>\<open>ALTER TABLE\<close> when it raises \<^verbatim>\<open>OperationalError\<close>. Both branches of the
  inner probe for \<^verbatim>\<open>outro_start\<close> run the same \<^verbatim>\<open>ALTER TABLE\<close>.
\<close>

definition migrate_outro_triggered :: "database \<Rightarrow> sql_error + database" where
  "migrate_outro_triggered db =
     (case sql_select [''outro_triggered''] [] (playback db) of
        Inr _ \<Rightarrow> Inr db
      | Inl OperationalError \<Rightarrow>
          (case sql_add_column ''outro_triggered'' (Integer 0) (playback db) of
             Inl e \<Rightarrow> Inl e
           | Inr t \<Rightarrow> Inr (db\<lparr>playback := Some t\<rparr>))
      | Inl e \<Rightarrow> Inl e)"

definition migrate_credits_duration :: "database \<Rightarrow> sql_error + database" where
  "migrate_credits_duration db =
     (case sql_select [''credits_duration''] [] (series_settings db) of
        Inr _ \<Rightarrow> Inr db
      | Inl OperationalError \<Rightarrow>
          (case sql_select [''outro_start''] [] (series_settings db) of
             Inr _ \<Rightarrow>
               (case sql_add_column ''credits_duration'' Null (series_settings db) of
                  Inl e \<Rightarrow> Inl e
                | Inr t \<Rightarrow> Inr (db\<lparr>series_settings := Some t\<rparr>))
           | Inl OperationalError \<Rightarrow>
               (case sql_add_column ''credits_duration'' Null (series_settings db) of
                  Inl e \<Rightarrow> Inl e
                | Inr t \<Rightarrow> Inr (db\<lparr>series_settings := Some t\<rparr>))
           | Inl e \<Rightarrow> Inl e)
      | Inl e \<Rightarrow> Inl e)"

text \<open>
  \<^verbatim>\<open>VlcDatabase.init_db\<close>: the result is the returned flag and the store. A
  statement that raises changes nothing; the statements before it stay applied.
\<close>

definition init_db :: "database \<Rightarrow> bool \<times> database" where
  "init_db db =
     (let db1 = db\<lparr>playback := Some (sql_create_if_not_exists playback_schema (playback db))\<rparr>
      in case migrate_outro_triggered db1 of
           Inl e \<Rightarrow> (False, db1)
         | Inr db2 \<Rightarrow>
             (let db3 = db2\<lparr>series_settings :=
                          Some (sql_create_if_not_exists settings_schema (series_settings db2))\<rparr>
              in case migrate_credits_duration db3 of
                   Inl e \<Rightarrow> (False, db3)
                 | Inr db4 \<Rightarrow> (True, db4)))"

text \<open>
  The tables as version 1.0.0 created them (\<^verbatim>\<open>init_db\<close> of RELIS/vlc\_db\_RELIS.py):
  no \<^verbatim>\<open>status\<close> and no \<^verbatim>\<open>outro_triggered\<close>, and \<^verbatim>\<open>outro_start\<close> where
  \<^verbatim>\<open>credits_duration\<close> is now.
\<close>

definition playback_schema_v1 :: "(string \<times> sqlval) list" where
  "playback_schema_v1 =
     [(''filename'', Null), (''position'', Null), (''duration'', Null), (''percent'', Null),
      (''series_prefix'', Null), (''series_suffix'', Null), (''description'', Null)]"

definition settings_schema_v1 :: "(string \<times> sqlval) list" where
  "settings_schema_v1 =
     [(''series_prefix'', Null), (''series_suffix'', Null), (''autoplay'', Integer 0),
      (''skip_intro'', Integer 0), (''skip_outro'', Integer 0), (''intro_start'', Null),
      (''intro_end'', Null), (''outro_start'', Null), (''description'', Null)]"

text \<open>
  A store as version 1.0.0 leaves it after \<^verbatim>\<open>save_playback("a.mkv", 10, 100, 10)\<close> and
  \<^verbatim>\<open>save_series_settings("Show", "S01", 1, 0, 0, None, None, 300)\<close>.
\<close>

definition store_v1 :: database where
  "store_v1 =
     \<lparr>playback = Some \<lparr>columns = playback_schema_v1,
        rows = [[(''filename'', Text ''a.mkv''), (''position'', Integer 10),
                 (''duration'', Integer 100), (''percent'', Integer 10),
                 (''series_prefix'', Null), (''series_suffix'', Null),
                 (''description'', Null)]]\<rparr>,
      series_settings = Some \<lparr>columns = settings_schema_v1,
        rows = [[(''series_prefix'', Text ''Show''), (''series_suffix'', Text ''S01''),
                 (''autoplay'', Integer 1), (''skip_intro'', Integer 0),
                 (''skip_outro'', Integer 0), (''intro_start'', Null), (''intro_end'', Null),
                 (''outro_start'', Integer 300), (''description'', Null)]]\<rparr>\<rparr>"

text \<open>
  A table with the column \<open>c\<close>: itself when it has the column, else with the column
  appended and its default at the end of every row.
\<close>

definition with_column :: "string \<Rightarrow> sqlval \<Rightarrow> table \<Rightarrow> table" where
  "with_column c d t =
     (if has_cols t [c] then t
      else \<lparr>columns = columns t @ [(c, d)], rows = map (\<lambda>r. r @ [(c, d)]) (rows t)\<rparr>)"

definition empty_database :: database where
  "empty_database = \<lparr>playback = None, series_settings = None\<rparr>"

text \<open>The store of a first start: \<^verbatim>\<open>init_db\<close> on a file with no table.\<close>

definition fresh :: database where
  "fresh = snd (init_db empty_database)"

section \<open>Derived status\<close>

text \<open>
  \<^verbatim>\<open>VlcDatabase._calculate_status\<close> (vlc\_db.py): the status string derived from the
  percentage; Python's \<^verbatim>\<open>None\<close> is \<open>None\<close>.
\<close>

definition calculate_status :: "int \<Rightarrow> string option" where
  "calculate_status percent =
     (if percent \<ge> 90 then Some ''watched''
      else if percent \<ge> 1 then Some ''partial''
      else None)"

section \<open>Playback operations\<close>

definition opt_text :: "string option \<Rightarrow> sqlval" where
  "opt_text s = (case s of None \<Rightarrow> Null | Some x \<Rightarrow> Text x)"

text \<open>
  How a call of a method that binds integers ends: it returns its flag (\<^verbatim>\<open>False\<close>
  after a caught \<^verbatim>\<open>sqlite3.Error\<close>), or it lets an exception through that its
  \<^verbatim>\<open>except sqlite3.Error\<close> clause does not catch. Every operation that writes gives
  how it ended and the store.
\<close>

datatype outcome = Returned bool | Raised sql_error

text \<open>\<^verbatim>\<open>VlcDatabase.save_playback\<close>\<close>

definition playback_values ::
  "int \<Rightarrow> int \<Rightarrow> int \<Rightarrow> string option \<Rightarrow> string option \<Rightarrow> (string \<times> sqlval) list" where
  "playback_values position duration percent series_prefix series_suffix =
     [(''position'', Integer position), (''duration'', Integer duration),
      (''percent'', Integer percent), (''status'', opt_text (calculate_status percent)),
      (''series_prefix'', opt_text series_prefix), (''series_suffix'', opt_text series_suffix)]"

definition save_playback ::
  "string \<Rightarrow> int \<Rightarrow> int \<Rightarrow> int \<Rightarrow> string option \<Rightarrow> string option \<Rightarrow> database
     \<Rightarrow> outcome \<times> database" where
  "save_playback filename position duration percent series_prefix series_suffix db =
     (let upd = playback_values position duration percent series_prefix series_suffix
      in case sql_upsert playback_key ((''filename'', Text filename) # upd) upd (playback db) of
           Inl OverflowError \<Rightarrow> (Raised OverflowError, db)
         | Inl e \<Rightarrow> (Returned False, db)
         | Inr t \<Rightarrow> (Returned True, db\<lparr>playback := Some t\<rparr>))"

text \<open>
  \<^verbatim>\<open>VlcDatabase.get_playback_percent\<close>: \<^verbatim>\<open>result[0] if result else 0\<close> on the
  first fetched row, and 0 after a caught error. The value returned is the cell as it
  is stored, so Python's \<^verbatim>\<open>None\<close> for a \<^verbatim>\<open>NULL\<close> cell is \<open>Null\<close>.
\<close>

definition get_playback_percent :: "string \<Rightarrow> database \<Rightarrow> sqlval" where
  "get_playback_percent filename db =
     (case sql_select [''percent''] [(''filename'', Text filename)] (playback db) of
        Inr ((v # _) # _) \<Rightarrow> v
      | _ \<Rightarrow> Integer 0)"

definition get_outro_triggered :: "string \<Rightarrow> database \<Rightarrow> sqlval" where
  "get_outro_triggered filename db =
     (case sql_select [''outro_triggered''] [(''filename'', Text filename)] (playback db) of
        Inr ((v # _) # _) \<Rightarrow> v
      | _ \<Rightarrow> Integer 0)"

definition set_outro_triggered :: "string \<Rightarrow> int \<Rightarrow> database \<Rightarrow> outcome \<times> database" where
  "set_outro_triggered filename triggered db =
     (case sql_upsert playback_key
             [(''filename'', Text filename), (''outro_triggered'', Integer triggered)]
             [(''outro_triggered'', Integer triggered)] (playback db) of
        Inl OverflowError \<Rightarrow> (Raised OverflowError, db)
      | Inl e \<Rightarrow> (Returned False, db)
      | Inr t \<Rightarrow> (Returned True, db\<lparr>playback := Some t\<rparr>))"

section \<open>Series settings operations\<close>

definition settings_where :: "string \<Rightarrow> string \<Rightarrow> (string \<times> sqlval) list" where
  "settings_where series_prefix series_suffix =
     [(''series_prefix'', Text series_prefix), (''series_suffix'', Text series_suffix)]"

text \<open>\<^verbatim>\<open>VlcDatabase.series_settings_exist\<close>: \<^verbatim>\<open>COUNT(*) > 0\<close>, False after an error.\<close>

definition series_settings_exist :: "string \<Rightarrow> string \<Rightarrow> database \<Rightarrow> bool" where
  "series_settings_exist series_prefix series_suffix db =
     (case sql_select [] (settings_where series_prefix series_suffix) (series_settings db) of
        Inl e \<Rightarrow> False
      | Inr rs \<Rightarrow> length rs > 0)"

definition opt_int :: "int option \<Rightarrow> sqlval" where
  "opt_int i = (case i of None \<Rightarrow> Null | Some x \<Rightarrow> Integer x)"

definition settings_values ::
  "int \<Rightarrow> int \<Rightarrow> int \<Rightarrow> int option \<Rightarrow> int option \<Rightarrow> int option \<Rightarrow> (string \<times> sqlval) list" where
  "settings_values autoplay skip_intro skip_outro intro_start intro_end credits_duration =
     [(''autoplay'', Integer autoplay), (''skip_intro'', Integer skip_intro),
      (''skip_outro'', Integer skip_outro), (''intro_start'', opt_int intro_start),
      (''intro_end'', opt_int intro_end), (''credits_duration'', opt_int credits_duration)]"

definition save_series_settings ::
  "string \<Rightarrow> string \<Rightarrow> int \<Rightarrow> int \<Rightarrow> int \<Rightarrow> int option \<Rightarrow> int option \<Rightarrow> int option \<Rightarrow> database
     \<Rightarrow> outcome \<times> database" where
  "save_series_settings series_prefix series_suffix autoplay skip_intro skip_outro
       intro_start intro_end credits_duration db =
     (let upd = settings_values autoplay skip_intro skip_outro intro_start intro_end
                  credits_duration
      in case sql_upsert settings_key (settings_where series_prefix series_suffix @ upd) upd
                (series_settings db) of
           Inl OverflowError \<Rightarrow> (Raised OverflowError, db)
         | Inl e \<Rightarrow> (Returned False, db)
         | Inr t \<Rightarrow> (Returned True, db\<lparr>series_settings := Some t\<rparr>))"

text \<open>
  The three partial setters share one shape: validate, then \<^verbatim>\<open>INSERT\<close> a row with
  the flags 0 when \<^verbatim>\<open>series_settings_exist\<close> says there is none, else
  \<^verbatim>\<open>UPDATE\<close> the named columns of the row.
\<close>

definition default_flags :: "(string \<times> sqlval) list" where
  "default_flags = [(''autoplay'', Integer 0), (''skip_intro'', Integer 0), (''skip_outro'', Integer 0)]"

definition insert_or_update ::
  "string \<Rightarrow> string \<Rightarrow> (string \<times> sqlval) list \<Rightarrow> database \<Rightarrow> outcome \<times> database" where
  "insert_or_update series_prefix series_suffix vals db =
     (case (if \<not> series_settings_exist series_prefix series_suffix db
            then sql_insert settings_key
                   (settings_where series_prefix series_suffix @ default_flags @ vals)
                   (series_settings db)
            else sql_update vals (settings_where series_prefix series_suffix)
                   (series_settings db)) of
        Inl OverflowError \<Rightarrow> (Raised OverflowError, db)
      | Inl e \<Rightarrow> (Returned False, db)
      | Inr t \<Rightarrow> (Returned True, db\<lparr>series_settings := Some t\<rparr>))"

definition set_credits_duration ::
  "string \<Rightarrow> string \<Rightarrow> int \<Rightarrow> database \<Rightarrow> outcome \<times> database" where
  "set_credits_duration series_prefix series_suffix duration db =
     (if duration < 0 then (Returned False, db)
      else insert_or_update series_prefix series_suffix
             [(''credits_duration'', Integer duration)] db)"

definition set_intro_markers ::
  "string \<Rightarrow> string \<Rightarrow> int \<Rightarrow> int \<Rightarrow> database \<Rightarrow> outcome \<times> database" where
  "set_intro_markers series_prefix series_suffix start end db =
     (if start < 0 \<or> end < 0 then (Returned False, db)
      else if end \<le> start then (Returned False, db)
      else insert_or_update series_prefix series_suffix
             [(''intro_start'', Integer start), (''intro_end'', Integer end)] db)"

definition set_outro_marker ::
  "string \<Rightarrow> string \<Rightarrow> int \<Rightarrow> database \<Rightarrow> outcome \<times> database" where
  "set_outro_marker series_prefix series_suffix start db =
     (if start < 0 then (Returned False, db)
      else insert_or_update series_prefix series_suffix
             [(''outro_start'', Integer start)] db)"

definition clear_skip_markers :: "string \<Rightarrow> string \<Rightarrow> string \<Rightarrow> database \<Rightarrow> bool \<times> database" where
  "clear_skip_markers series_prefix series_suffix marker_type db =
     (case (if marker_type = ''intro''
            then Some [(''intro_start'', Null), (''intro_end'', Null)]
            else if marker_type = ''outro''
            then Some [(''outro_start'', Null)]
            else if marker_type = ''all''
            then Some [(''intro_start'', Null), (''intro_end'', Null), (''outro_start'', Null)]
            else None) of
        None \<Rightarrow> (False, db)
      | Some asg \<Rightarrow>
          (case sql_update asg (settings_where series_prefix series_suffix)
                  (series_settings db) of
             Inl e \<Rightarrow> (False, db)
           | Inr t \<Rightarrow> (True, db\<lparr>series_settings := Some t\<rparr>)))"

section \<open>Batch and version queries\<close>

text \<open>
  \<^verbatim>\<open>SELECT cols FROM t WHERE c IN (?, ..., ?)\<close> on the key column, with text
  parameters. SQLite refuses a statement with more parameters than
  \<^verbatim>\<open>SQLITE_MAX_VARIABLE_NUMBER\<close> (\<^verbatim>\<open>OperationalError\<close>: too many SQL variables).
  It answers the query from the index of the primary key, so the rows come in key order:
  ascending by the bytes of the text.
\<close>

definition max_variable_number :: nat where
  "max_variable_number = 32766"

definition text_of :: "sqlval \<Rightarrow> string" where
  "text_of v = (case v of Text s \<Rightarrow> s | _ \<Rightarrow> [])"

definition sql_select_in ::
  "string list \<Rightarrow> string \<Rightarrow> sqlval list \<Rightarrow> table option \<Rightarrow> sql_error + sqlval list list" where
  "sql_select_in cols c vals tab =
     (case tab of
        None \<Rightarrow> Inl OperationalError
      | Some t \<Rightarrow>
          if has_cols t (cols @ [c]) \<and> length vals \<le> max_variable_number
          then Inr (map (\<lambda>r. map (cell r) cols)
                      (sort_key (\<lambda>r. text_of (cell r c))
                         (filter (\<lambda>r. cell r c \<noteq> Null \<and> cell r c \<in> set vals) (rows t))))
          else Inl OperationalError)"

text \<open>\<^verbatim>\<open>full_path.split('/')[-1]\<close>: what follows the last slash.\<close>

definition basename :: "string \<Rightarrow> string" where
  "basename full_path = rev (takeWhile (\<lambda>ch. ch \<noteq> CHR ''/'') (rev full_path))"

text \<open>
  The result dictionary is an association list in insertion order;
  \<^verbatim>\<open>result[k] = v\<close> is \<open>AList.update k v\<close>.
\<close>

fun fill_fetched :: "sqlval list list \<Rightarrow> (string \<times> sqlval) list \<Rightarrow> (string \<times> sqlval) list" where
  "fill_fetched [] result = result"
| "fill_fetched ([Text full_path, percent] # fetched) result =
     fill_fetched fetched (AList.update (basename full_path) percent result)"
| "fill_fetched (_ # fetched) result = fill_fetched fetched result"

fun fill_missing :: "string list \<Rightarrow> (string \<times> sqlval) list \<Rightarrow> (string \<times> sqlval) list" where
  "fill_missing [] result = result"
| "fill_missing (filename # filenames) result =
     fill_missing filenames
       (if map_of result filename = None then AList.update filename (Integer 0) result
        else result)"

definition get_playback_batch :: "string \<Rightarrow> string list \<Rightarrow> database \<Rightarrow> (string \<times> sqlval) list" where
  "get_playback_batch directory filenames db =
     (if filenames = [] then []
      else let full_paths = map (\<lambda>filename. directory @ ''/'' @ filename) filenames
           in case sql_select_in [''filename'', ''percent''] ''filename'' (map Text full_paths)
                     (playback db) of
                Inl e \<Rightarrow> foldl (\<lambda>result filename. AList.update filename (Integer 0) result)
                           [] filenames
              | Inr fetched \<Rightarrow> fill_missing filenames (fill_fetched fetched []))"

text \<open>\<^verbatim>\<open>COALESCE(x, '')\<close>\<close>

definition coalesce :: "sqlval \<Rightarrow> sqlval" where
  "coalesce v = (if v = Null then Text [] else v)"

text \<open>
  The order of SQLite values that \<^verbatim>\<open>MAX\<close> uses: \<^verbatim>\<open>NULL\<close> below every integer,
  integers below every text, texts by their bytes. \<^verbatim>\<open>MAX\<close> is the greatest value of
  the group, \<^verbatim>\<open>NULL\<close> when the group has no other value.
\<close>

fun sql_le :: "sqlval \<Rightarrow> sqlval \<Rightarrow> bool" where
  "sql_le Null _ = True"
| "sql_le (Integer i) Null = False"
| "sql_le (Integer i) (Integer j) = (i \<le> j)"
| "sql_le (Integer i) (Text u) = True"
| "sql_le (Text s) (Text u) = (s \<le> u)"
| "sql_le (Text s) _ = False"

definition sql_max :: "sqlval list \<Rightarrow> sqlval" where
  "sql_max vs = foldl (\<lambda>m v. if sql_le m v then v else m) Null vs"

text \<open>
  The rows of one version of a series: the \<^verbatim>\<open>WHERE\<close> clause of the two subqueries
  of \<^verbatim>\<open>find_other_versions\<close>.
\<close>

definition in_series :: "sqlval \<Rightarrow> sqlval \<Rightarrow> row \<Rightarrow> bool" where
  "in_series pre suf r =
     (pre \<noteq> Null \<and> cell r ''series_prefix'' = pre \<and> coalesce (cell r ''series_suffix'') = suf)"

definition last_filename :: "sqlval \<Rightarrow> sqlval \<Rightarrow> row list \<Rightarrow> sqlval" where
  "last_filename pre suf rs =
     (case rev (filter (in_series pre suf) rs) of
        [] \<Rightarrow> Null
      | r # _ \<Rightarrow> cell r ''filename'')"

definition max_percent :: "sqlval \<Rightarrow> sqlval \<Rightarrow> row list \<Rightarrow> sqlval" where
  "max_percent pre suf rs = sql_max (map (\<lambda>r. cell r ''percent'') (filter (in_series pre suf) rs))"

text \<open>
  \<^verbatim>\<open>VlcDatabase.find_other_versions\<close>. \<^verbatim>\<open>SELECT DISTINCT\<close> keeps one copy of each
  result row, here the first in scan order.
\<close>

definition find_other_versions ::
  "string \<Rightarrow> string option \<Rightarrow> database \<Rightarrow> (sqlval \<times> sqlval \<times> sqlval) list" where
  "find_other_versions series_prefix current_suffix db =
     (case playback db of
        None \<Rightarrow> []
      | Some t \<Rightarrow>
          if has_cols t [''series_suffix'', ''filename'', ''series_prefix'', ''percent'']
          then rev (remdups (rev
                 (map (\<lambda>p1. (coalesce (cell p1 ''series_suffix''),
                              last_filename (cell p1 ''series_prefix'')
                                (coalesce (cell p1 ''series_suffix'')) (rows t),
                              max_percent (cell p1 ''series_prefix'')
                                (coalesce (cell p1 ''series_suffix'')) (rows t)))
                    (filter (\<lambda>p1. cell p1 ''series_prefix'' = Text series_prefix \<and>
                                   coalesce (cell p1 ''series_suffix'')
                                     \<noteq> coalesce (opt_text current_suffix))
                       (rows t)))))
          else [])"

section \<open>Store invariants and reachable stores\<close>

text \<open>Every row has exactly the columns of its table, and no column name occurs twice.\<close>

definition wf_table :: "table \<Rightarrow> bool" where
  "wf_table t =
     (distinct (map fst (columns t)) \<and>
      list_all (\<lambda>r. map fst r = map fst (columns t)) (rows t))"

definition playback_rows :: "database \<Rightarrow> row list" where
  "playback_rows db = (case playback db of None \<Rightarrow> [] | Some t \<Rightarrow> rows t)"

definition rows_for :: "string \<Rightarrow> database \<Rightarrow> row list" where
  "rows_for filename db = filter (\<lambda>r. cell r ''filename'' = Text filename) (playback_rows db)"

definition settings_rows :: "database \<Rightarrow> row list" where
  "settings_rows db = (case series_settings db of None \<Rightarrow> [] | Some t \<Rightarrow> rows t)"

text \<open>The settings table holds a row for the key (prefix, suffix).\<close>

definition has_settings_row :: "string \<Rightarrow> string \<Rightarrow> database \<Rightarrow> bool" where
  "has_settings_row series_prefix series_suffix db =
     list_ex (\<lambda>r. cell r ''series_prefix'' = Text series_prefix \<and>
                   cell r ''series_suffix'' = Text series_suffix) (settings_rows db)"

text \<open>
  A playback table that has the columns \<^verbatim>\<open>save_playback\<close> names and respects its
  primary key, and a settings table that has the columns the intro setter names.
\<close>

definition playback_ok :: "database \<Rightarrow> bool" where
  "playback_ok db =
     (case playback db of
        None \<Rightarrow> False
      | Some t \<Rightarrow> wf_table t \<and>
                  has_cols t [''filename'', ''position'', ''duration'', ''percent'', ''status'',
                              ''series_prefix'', ''series_suffix''] \<and>
                  distinct (map (\<lambda>r. cell r ''filename'') (rows t)))"

definition settings_ok :: "database \<Rightarrow> bool" where
  "settings_ok db =
     (case series_settings db of
        None \<Rightarrow> False
      | Some t \<Rightarrow> wf_table t \<and>
                  has_cols t [''series_prefix'', ''series_suffix'', ''autoplay'', ''skip_intro'',
                              ''skip_outro'', ''intro_start'', ''intro_end''])"

text \<open>The stores the program can produce from a first start.\<close>

inductive reachable :: "database \<Rightarrow> bool" where
  r_fresh: "reachable fresh"
| r_init_db: "reachable db \<Longrightarrow> reachable (snd (init_db db))"
| r_save_playback:
    "reachable db \<Longrightarrow> reachable (snd (save_playback f pos dur pct pre suf db))"
| r_set_outro_triggered: "reachable db \<Longrightarrow> reachable (snd (set_outro_triggered f trig db))"
| r_save_series_settings:
    "reachable db \<Longrightarrow> reachable (snd (save_series_settings p s au si so i1 i2 cd db))"
| r_set_credits_duration: "reachable db \<Longrightarrow> reachable (snd (set_credits_duration p s dur db))"
| r_set_intro_markers: "reachable db \<Longrightarrow> reachable (snd (set_intro_markers p s i1 i2 db))"
| r_set_outro_marker: "reachable db \<Longrightarrow> reachable (snd (set_outro_marker p s i1 db))"
| r_clear_skip_markers: "reachable db \<Longrightarrow> reachable (snd (clear_skip_markers p s ty db))"

text \<open>
  A store with two records whose paths end in the same name, the one in the subdirectory
  saved last.
\<close>

definition two_paths :: database where
  "two_paths = snd (save_playback ''d/sub/x.mkv'' 50 100 50 None None
                 (snd (save_playback ''d/x.mkv'' 10 100 10 None None fresh)))"

text \<open>
  A store with one series in three versions: the first start followed by four
  \<^verbatim>\<open>save_playback\<close> calls, one without suffix, two for 720p and one for 1080p.
\<close>

definition versions_store :: database where
  "versions_store =
     snd (save_playback ''e3.mkv'' 10 100 10 (Some ''Show.S01'') (Some ''1080p.mkv'')
       (snd (save_playback ''e2.mkv'' 70 100 70 (Some ''Show.S01'') (Some ''720p.mkv'')
         (snd (save_playback ''e1.mkv'' 40 100 40 (Some ''Show.S01'') (Some ''720p.mkv'')
           (snd (save_playback ''e0.mkv'' 95 100 95 (Some ''Show.S01'') None fresh)))))))"

section \<open>Properties of the derived status\<close>

text \<open>
  C1 (as amended). For every integer percent p the status is 'watched' exactly when
  p >= 90 and 'partial' exactly when 1 <= p <= 89; it is absent exactly when p <= 0
  (so also for a negative percent, not only for p = 0).
\<close>

theorem calculate_status_cases:
  "(calculate_status p = Some ''watched'') = (p \<ge> 90)
   \<and> (calculate_status p = Some ''partial'') = (1 \<le> p \<and> p \<le> 89)
   \<and> (calculate_status p = None) = (p \<le> 0)"
  by (simp add: calculate_status_def)

text \<open>
  C1 as stated fails at a negative percent: the status of -1 is absent although
  -1 is not 0.
\<close>

theorem calculate_status_negative_counterexample:
  "\<not> ((calculate_status (- 1) = None) = ((- 1 :: int) = 0))"
  by (simp add: calculate_status_def)

section \<open>The store of a first start\<close>

lemma fresh_eq:
  "fresh = \<lparr>playback = Some \<lparr>columns = playback_schema, rows = []\<rparr>,
            series_settings = Some \<lparr>columns = settings_schema, rows = []\<rparr>\<rparr>"
  by (simp add: fresh_def init_db_def empty_database_def sql_create_if_not_exists_def
      migrate_outro_triggered_def migrate_credits_duration_def sql_select_def has_cols_def
      playback_schema_def settings_schema_def)

lemma set_intro_markers_fresh:
  "set_intro_markers p s 10 20 fresh =
     (Returned True, fresh\<lparr>series_settings := Some \<lparr>columns = settings_schema,
        rows = [[(''series_prefix'', Text p), (''series_suffix'', Text s),
                 (''autoplay'', Integer 0), (''skip_intro'', Integer 0),
                 (''skip_outro'', Integer 0), (''intro_start'', Integer 10),
                 (''intro_end'', Integer 20), (''credits_duration'', Null),
                 (''description'', Null)]]\<rparr>\<rparr>)"
  by (simp add: fresh_eq set_intro_markers_def insert_or_update_def series_settings_exist_def
      sql_select_def sql_insert_def has_cols_def settings_where_def default_flags_def
      settings_schema_def new_row_def assign_def binds_def sqlite_int_def)

section \<open>The outro marker on the current schema\<close>

text \<open>
  C3. Claimed: on a freshly initialized store, set_intro_markers(p, s, 10, 20) followed
  by set_outro_marker(p, s, 300) both succeed and leave intro_start=10, intro_end=20,
  outro_start=300. The code at that input: the first call succeeds, the second names the
  column outro_start, which the table created by init_db does not have, so the statement
  raises, the call returns False and the store stays as the first call left it, with
  no outro_start cell.
\<close>

theorem set_outro_marker_after_intro_fresh:
  "fst (set_intro_markers p s 10 20 fresh) = Returned True
   \<and> set_outro_marker p s 300 (snd (set_intro_markers p s 10 20 fresh))
       = (Returned False, snd (set_intro_markers p s 10 20 fresh))
   \<and> map (\<lambda>r. (cell r ''intro_start'', cell r ''intro_end'', map_of r ''outro_start''))
         (settings_rows (snd (set_intro_markers p s 10 20 fresh)))
       = [(Integer 10, Integer 20, None)]"
  unfolding set_intro_markers_fresh snd_conv fst_conv
  by (simp add: fresh_eq set_outro_marker_def insert_or_update_def series_settings_exist_def
      sql_select_def sql_update_def has_cols_def settings_where_def settings_schema_def
      wh_match_def cell_def settings_rows_def)

text \<open>
  C4. Claimed: for every existing settings row, clear_skip_markers with scope 'outro'
  nulls outro_start and succeeds, and scope 'all' nulls all three markers and succeeds.
  The code on the store of a first start, with the row that set_intro_markers(p, s, 10,
  20) created: both scopes name the missing column outro_start, the call returns False
  and nothing is cleared, the intro markers included.
\<close>

theorem clear_skip_markers_outro_all_fresh:
  "clear_skip_markers p s ''outro'' (snd (set_intro_markers p s 10 20 fresh))
       = (False, snd (set_intro_markers p s 10 20 fresh))
   \<and> clear_skip_markers p s ''all'' (snd (set_intro_markers p s 10 20 fresh))
       = (False, snd (set_intro_markers p s 10 20 fresh))
   \<and> map (\<lambda>r. (cell r ''intro_start'', cell r ''intro_end''))
         (settings_rows (snd (clear_skip_markers p s ''all''
                               (snd (set_intro_markers p s 10 20 fresh)))))
       = [(Integer 10, Integer 20)]"
  unfolding set_intro_markers_fresh snd_conv
  by (simp add: fresh_eq clear_skip_markers_def sql_update_def has_cols_def settings_where_def
      settings_schema_def cell_def settings_rows_def)

section \<open>The percent of a record without one\<close>

text \<open>
  C7. Claimed: get_playback_percent returns an integer for every filename in every
  reachable store, also one produced only by set_outro_triggered. The code after a
  first start and set_outro_triggered(f, 1): the record of f exists with a NULL percent,
  and get_playback_percent returns that NULL (Python's None), not an integer.
\<close>

theorem get_playback_percent_after_set_outro_triggered:
  "fst (set_outro_triggered f 1 fresh) = Returned True
   \<and> reachable (snd (set_outro_triggered f 1 fresh))
   \<and> get_playback_percent f (snd (set_outro_triggered f 1 fresh)) = Null"
proof -
  have "reachable (snd (set_outro_triggered f 1 fresh))"
    by (rule r_set_outro_triggered) (rule r_fresh)
  moreover have "fst (set_outro_triggered f 1 fresh) = Returned True"
    by (simp add: fresh_eq set_outro_triggered_def sql_upsert_def has_cols_def
        playback_schema_def playback_key_def binds_def sqlite_int_def)
  moreover have "get_playback_percent f (snd (set_outro_triggered f 1 fresh)) = Null"
    by (simp add: fresh_eq set_outro_triggered_def get_playback_percent_def sql_upsert_def
        sql_select_def has_cols_def playback_schema_def playback_key_def new_row_def
        assign_def wh_match_def cell_def binds_def sqlite_int_def)
  ultimately show ?thesis by simp
qed

section \<open>Cells and assignments\<close>

lemma map_fst_assign: "map fst (assign asg r) = map fst r"
  by (induction r) (auto simp: assign_def)

lemma map_of_assign:
  "map_of (assign asg r) c =
     (case map_of r c of None \<Rightarrow> None
      | Some v \<Rightarrow> Some (case map_of asg c of Some v' \<Rightarrow> v' | None \<Rightarrow> v))"
  by (induction r) (auto simp: assign_def split: option.splits)

lemma cell_assign_other: "map_of asg c = None \<Longrightarrow> cell (assign asg r) c = cell r c"
  by (simp add: cell_def map_of_assign split: option.splits)

lemma cell_assign_hit:
  "map_of asg c = Some v \<Longrightarrow> c \<in> set (map fst r) \<Longrightarrow> cell (assign asg r) c = v"
  by (auto simp: cell_def map_of_assign map_of_eq_None_iff split: option.splits)

lemma assign_absorb:
  "(\<And>c v. map_of upd c = Some v \<Longrightarrow> map_of asg c = Some v) \<Longrightarrow>
   assign upd (assign asg r) = assign asg r"
  by (induction r) (auto simp: assign_def split: option.splits)

lemma assign_idem: "assign asg (assign asg r) = assign asg r"
  by (rule assign_absorb)

section \<open>Initialization: what it adds and what it leaves out\<close>

lemma migrate_outro_triggered_eq:
  "playback db = Some t \<Longrightarrow>
   migrate_outro_triggered db =
     Inr (db\<lparr>playback := Some (with_column ''outro_triggered'' (Integer 0) t)\<rparr>)"
  by (simp add: migrate_outro_triggered_def sql_select_def sql_add_column_def with_column_def)

lemma migrate_credits_duration_eq:
  "series_settings db = Some t \<Longrightarrow>
   migrate_credits_duration db =
     Inr (db\<lparr>series_settings := Some (with_column ''credits_duration'' Null t)\<rparr>)"
  by (simp add: migrate_credits_duration_def sql_select_def sql_add_column_def has_cols_def
      with_column_def)

lemma init_db_eq:
  "init_db db =
     (True, \<lparr>playback = Some (with_column ''outro_triggered'' (Integer 0)
                (sql_create_if_not_exists playback_schema (playback db))),
             series_settings = Some (with_column ''credits_duration'' Null
                (sql_create_if_not_exists settings_schema (series_settings db)))\<rparr>)"
  by (simp add: init_db_def Let_def migrate_outro_triggered_eq migrate_credits_duration_eq)

lemma has_cols_with_column: "has_cols (with_column c d t) [c]"
  by (simp add: with_column_def has_cols_def)

lemma with_column_idem: "with_column c d (with_column c d t) = with_column c d t"
  using has_cols_with_column[of c d t] by (simp add: with_column_def[of c d "with_column c d t"])

lemma init_db_idem: "init_db (snd (init_db db)) = (True, snd (init_db db))"
  by (simp add: init_db_eq sql_create_if_not_exists_def with_column_idem)

lemma wf_table_with_column: "wf_table t \<Longrightarrow> wf_table (with_column c d t)"
  by (auto simp: wf_table_def with_column_def has_cols_def list_all_iff)

lemma with_column_playback_schema:
  "with_column ''outro_triggered'' (Integer 0) \<lparr>columns = playback_schema, rows = []\<rparr>
     = \<lparr>columns = playback_schema, rows = []\<rparr>"
  by (simp add: with_column_def has_cols_def playback_schema_def)

lemma with_column_settings_schema:
  "with_column ''credits_duration'' Null \<lparr>columns = settings_schema, rows = []\<rparr>
     = \<lparr>columns = settings_schema, rows = []\<rparr>"
  by (simp add: with_column_def has_cols_def settings_schema_def)

text \<open>
  What init_db does on every store: it reports success, and running it again on its
  result reports success and leaves that result as it is (same tables, same columns,
  same rows). A table that is absent is created with the current columns. A playback
  table that lacks outro_triggered gets that one column appended with default 0, a
  settings table that lacks credits_duration gets that one column appended with default
  NULL; every other column stays, every existing row stays in place with its cells and
  reads the default in the new column, and a table without duplicate columns stays so.
  These two are the only columns init_db probes for.
\<close>

lemma init_db_idempotent_additive:
  "fst (init_db db)
   \<and> init_db (snd (init_db db)) = (True, snd (init_db db))
   \<and> (playback db = None \<longrightarrow>
        playback (snd (init_db db)) = Some \<lparr>columns = playback_schema, rows = []\<rparr>)
   \<and> (series_settings db = None \<longrightarrow>
        series_settings (snd (init_db db)) = Some \<lparr>columns = settings_schema, rows = []\<rparr>)
   \<and> (\<forall>t. playback db = Some t \<longrightarrow>
        playback (snd (init_db db)) = Some (with_column ''outro_triggered'' (Integer 0) t) \<and>
        (wf_table t \<longrightarrow> wf_table (with_column ''outro_triggered'' (Integer 0) t)))
   \<and> (\<forall>t. series_settings db = Some t \<longrightarrow>
        series_settings (snd (init_db db)) = Some (with_column ''credits_duration'' Null t) \<and>
        (wf_table t \<longrightarrow> wf_table (with_column ''credits_duration'' Null t)))"
proof -
  have a: "fst (init_db db)" by (simp add: init_db_eq)
  have b: "init_db (snd (init_db db)) = (True, snd (init_db db))" by (rule init_db_idem)
  have c: "playback db = None \<longrightarrow>
        playback (snd (init_db db)) = Some \<lparr>columns = playback_schema, rows = []\<rparr>"
    by (simp add: init_db_eq sql_create_if_not_exists_def with_column_playback_schema)
  have d: "series_settings db = None \<longrightarrow>
        series_settings (snd (init_db db)) = Some \<lparr>columns = settings_schema, rows = []\<rparr>"
    by (simp add: init_db_eq sql_create_if_not_exists_def with_column_settings_schema)
  have e: "playback db = Some t \<longrightarrow>
        playback (snd (init_db db)) = Some (with_column ''outro_triggered'' (Integer 0) t) \<and>
        (wf_table t \<longrightarrow> wf_table (with_column ''outro_triggered'' (Integer 0) t))" for t
    by (simp add: init_db_eq sql_create_if_not_exists_def wf_table_with_column)
  have f: "series_settings db = Some t \<longrightarrow>
        series_settings (snd (init_db db)) = Some (with_column ''credits_duration'' Null t) \<and>
        (wf_table t \<longrightarrow> wf_table (with_column ''credits_duration'' Null t))" for t
    by (simp add: init_db_eq sql_create_if_not_exists_def wf_table_with_column)
  from a b c d e f show ?thesis by blast
qed

text \<open>
  At the store of version 1.0.0 and at the empty file. At the former both probed columns
  are appended, the record and the settings row are kept and read the defaults.
\<close>

lemma init_db_idempotent_additive_examples:
  "init_db store_v1 =
     (True,
      \<lparr>playback = Some \<lparr>columns = playback_schema_v1 @ [(''outro_triggered'', Integer 0)],
         rows = [[(''filename'', Text ''a.mkv''), (''position'', Integer 10),
                  (''duration'', Integer 100), (''percent'', Integer 10),
                  (''series_prefix'', Null), (''series_suffix'', Null),
                  (''description'', Null), (''outro_triggered'', Integer 0)]]\<rparr>,
       series_settings = Some \<lparr>columns = settings_schema_v1 @ [(''credits_duration'', Null)],
         rows = [[(''series_prefix'', Text ''Show''), (''series_suffix'', Text ''S01''),
                  (''autoplay'', Integer 1), (''skip_intro'', Integer 0),
                  (''skip_outro'', Integer 0), (''intro_start'', Null), (''intro_end'', Null),
                  (''outro_start'', Integer 300), (''description'', Null),
                  (''credits_duration'', Null)]]\<rparr>\<rparr>)
   \<and> init_db (snd (init_db store_v1)) = (True, snd (init_db store_v1))
   \<and> (\<exists>t. playback store_v1 = Some t \<and> wf_table t \<and>
          wf_table (with_column ''outro_triggered'' (Integer 0) t))
   \<and> (\<exists>t. series_settings store_v1 = Some t \<and> wf_table t \<and>
          wf_table (with_column ''credits_duration'' Null t))
   \<and> playback empty_database = None \<and> series_settings empty_database = None
   \<and> init_db empty_database =
       (True, \<lparr>playback = Some \<lparr>columns = playback_schema, rows = []\<rparr>,
               series_settings = Some \<lparr>columns = settings_schema, rows = []\<rparr>\<rparr>)"
proof -
  obtain tp ts where tp: "playback store_v1 = Some tp" and ts: "series_settings store_v1 = Some ts"
    by (simp add: store_v1_def)
  have wfp: "wf_table tp"
    using tp by (auto simp: store_v1_def wf_table_def playback_schema_v1_def)
  have wfs: "wf_table ts"
    using ts by (auto simp: store_v1_def wf_table_def settings_schema_v1_def)
  have wp: "with_column ''outro_triggered'' (Integer 0) tp
      = \<lparr>columns = playback_schema_v1 @ [(''outro_triggered'', Integer 0)],
         rows = map (\<lambda>r. r @ [(''outro_triggered'', Integer 0)]) (rows tp)\<rparr>"
    using tp by (auto simp: store_v1_def with_column_def has_cols_def playback_schema_v1_def)
  have ws: "with_column ''credits_duration'' Null ts
      = \<lparr>columns = settings_schema_v1 @ [(''credits_duration'', Null)],
         rows = map (\<lambda>r. r @ [(''credits_duration'', Null)]) (rows ts)\<rparr>"
    using ts by (auto simp: store_v1_def with_column_def has_cols_def settings_schema_v1_def)
  have pair: "init_db db = (fst (init_db db),
      \<lparr>playback = playback (snd (init_db db)),
        series_settings = series_settings (snd (init_db db))\<rparr>)" for db
    by (cases "init_db db") simp
  from init_db_idempotent_additive[of store_v1] tp ts wfp wfs
  have v1: "fst (init_db store_v1)"
    "init_db (snd (init_db store_v1)) = (True, snd (init_db store_v1))"
    "playback (snd (init_db store_v1)) = Some (with_column ''outro_triggered'' (Integer 0) tp)"
    "series_settings (snd (init_db store_v1)) = Some (with_column ''credits_duration'' Null ts)"
    "wf_table (with_column ''outro_triggered'' (Integer 0) tp)"
    "wf_table (with_column ''credits_duration'' Null ts)"
    by simp_all
  have e: "playback empty_database = None" "series_settings empty_database = None"
    by (simp_all add: empty_database_def)
  from init_db_idempotent_additive[of empty_database] e
  have e1: "fst (init_db empty_database)"
    "playback (snd (init_db empty_database)) = Some \<lparr>columns = playback_schema, rows = []\<rparr>"
    "series_settings (snd (init_db empty_database))
       = Some \<lparr>columns = settings_schema, rows = []\<rparr>"
    by simp_all
  have r1: "init_db store_v1 = (True,
      \<lparr>playback = Some (with_column ''outro_triggered'' (Integer 0) tp),
        series_settings = Some (with_column ''credits_duration'' Null ts)\<rparr>)"
    using pair[of store_v1] v1(1,3,4) by simp
  have r1': "init_db store_v1 =
     (True,
      \<lparr>playback = Some \<lparr>columns = playback_schema_v1 @ [(''outro_triggered'', Integer 0)],
         rows = [[(''filename'', Text ''a.mkv''), (''position'', Integer 10),
                  (''duration'', Integer 100), (''percent'', Integer 10),
                  (''series_prefix'', Null), (''series_suffix'', Null),
                  (''description'', Null), (''outro_triggered'', Integer 0)]]\<rparr>,
       series_settings = Some \<lparr>columns = settings_schema_v1 @ [(''credits_duration'', Null)],
         rows = [[(''series_prefix'', Text ''Show''), (''series_suffix'', Text ''S01''),
                  (''autoplay'', Integer 1), (''skip_intro'', Integer 0),
                  (''skip_outro'', Integer 0), (''intro_start'', Null), (''intro_end'', Null),
                  (''outro_start'', Integer 300), (''description'', Null),
                  (''credits_duration'', Null)]]\<rparr>\<rparr>)"
    unfolding r1 wp ws using tp ts by (auto simp: store_v1_def)
  have r2: "init_db empty_database =
       (True, \<lparr>playback = Some \<lparr>columns = playback_schema, rows = []\<rparr>,
               series_settings = Some \<lparr>columns = settings_schema, rows = []\<rparr>\<rparr>)"
    using pair[of empty_database] e1 by simp
  from r1' v1(2,5,6) tp ts wfp wfs e r2 show ?thesis by blast
qed

text \<open>
  C9. Claimed: on a store missing a newer column, init_db adds that column with its
  default. The code at the store written by version 1.0.0, whose playback table has no
  column status (a column of the current schema, the one save_playback writes):
  init_db reports success and appends outro_triggered, the one playback column it
  probes for, but not status. The playback table keeps the columns of version 1.0.0
  plus outro_triggered, the record of a.mkv has no status cell, and a second run
  changes nothing.
\<close>

theorem init_db_status_not_added:
  "''status'' \<in> set (map fst playback_schema)
   \<and> map_option (\<lambda>t. map fst (columns t)) (playback store_v1)
       = Some [''filename'', ''position'', ''duration'', ''percent'', ''series_prefix'',
               ''series_suffix'', ''description'']
   \<and> fst (init_db store_v1)
   \<and> map_option (\<lambda>t. map fst (columns t)) (playback (snd (init_db store_v1)))
       = Some [''filename'', ''position'', ''duration'', ''percent'', ''series_prefix'',
               ''series_suffix'', ''description'', ''outro_triggered'']
   \<and> map (\<lambda>r. map_of r ''status'') (playback_rows (snd (init_db store_v1))) = [None]
   \<and> init_db (snd (init_db store_v1)) = (True, snd (init_db store_v1))"
proof -
  have a: "''status'' \<in> set (map fst playback_schema)"
    by (simp add: playback_schema_def)
  have b: "map_option (\<lambda>t. map fst (columns t)) (playback store_v1)
       = Some [''filename'', ''position'', ''duration'', ''percent'', ''series_prefix'',
               ''series_suffix'', ''description'']"
    by (simp add: store_v1_def playback_schema_v1_def)
  have c: "fst (init_db store_v1)" by (simp add: init_db_eq)
  have d: "map_option (\<lambda>t. map fst (columns t)) (playback (snd (init_db store_v1)))
       = Some [''filename'', ''position'', ''duration'', ''percent'', ''series_prefix'',
               ''series_suffix'', ''description'', ''outro_triggered'']"
    by (simp add: init_db_eq store_v1_def sql_create_if_not_exists_def with_column_def
        has_cols_def playback_schema_v1_def)
  have e: "map (\<lambda>r. map_of r ''status'') (playback_rows (snd (init_db store_v1))) = [None]"
    by (simp add: init_db_eq store_v1_def sql_create_if_not_exists_def with_column_def
        has_cols_def playback_schema_v1_def playback_rows_def)
  have f: "init_db (snd (init_db store_v1)) = (True, snd (init_db store_v1))"
    by (rule init_db_idem)
  from a b c d e f show ?thesis by blast
qed

lemma in_keys_iff: "(c \<in> fst ` set r) = (map_of r c \<noteq> None)"
  by (simp add: map_of_eq_None_iff)

section \<open>The intro markers\<close>

lemma cell_absent: "c \<notin> fst ` set r \<Longrightarrow> cell r c = Null"
  by (simp add: cell_def in_keys_iff)

lemma wh_match_settings:
  "wh_match (settings_where p s) r =
     (cell r ''series_prefix'' = Text p \<and> cell r ''series_suffix'' = Text s)"
  by (simp add: wh_match_def settings_where_def)

lemma cell_new_row:
  "cell (new_row t asg) c =
     (if c \<in> set (map fst (columns t))
      then (case map_of asg c of Some v \<Rightarrow> v | None \<Rightarrow> cell (columns t) c)
      else Null)"
  by (simp add: new_row_def cell_def map_of_assign in_keys_iff split: option.splits)

lemma map_fst_new_row: "map fst (new_row t asg) = map fst (columns t)"
  by (simp add: new_row_def map_fst_assign)

lemma series_settings_exist_eq:
  "series_settings db = Some t \<Longrightarrow> has_cols t [''series_prefix'', ''series_suffix''] \<Longrightarrow>
   series_settings_exist p s db = list_ex (wh_match (settings_where p s)) (rows t)"
  by (auto simp: series_settings_exist_def sql_select_def settings_where_def has_cols_def
      list_ex_iff filter_empty_conv)

lemma same_key_settings:
  "has_cols t [''series_prefix'', ''series_suffix''] \<Longrightarrow>
   same_key settings_key (new_row t (settings_where p s @ rest)) r
     = wh_match (settings_where p s) r"
  by (simp add: same_key_def settings_key_def cell_new_row has_cols_def settings_where_def
      wh_match_def)

lemma has_cols_append: "has_cols t (xs @ ys) = (has_cols t xs \<and> has_cols t ys)"
  by (simp add: has_cols_def)

lemma has_settings_row_eq:
  "series_settings db = Some t \<Longrightarrow>
   has_settings_row p s db = list_ex (wh_match (settings_where p s)) (rows t)"
  by (simp add: has_settings_row_def settings_rows_def wh_match_settings[abs_def])

lemma series_settings_exist_rows:
  "series_settings db = Some t \<Longrightarrow> has_cols t [''series_prefix'', ''series_suffix''] \<Longrightarrow>
   series_settings_exist p s db = has_settings_row p s db"
  by (simp add: series_settings_exist_eq has_settings_row_eq)

lemma insert_or_update_new:
  assumes "series_settings db = Some t"
    and "has_cols t [''series_prefix'', ''series_suffix'', ''autoplay'', ''skip_intro'', ''skip_outro'']"
    and "has_cols t (map fst vals)"
    and "list_all binds (map snd vals)"
    and "\<not> has_settings_row p s db"
  shows "insert_or_update p s vals db =
     (Returned True, db\<lparr>series_settings := Some (t\<lparr>rows := rows t @
        [new_row t (settings_where p s @ default_flags @ vals)]\<rparr>)\<rparr>)"
proof -
  from assms(2) have k: "has_cols t [''series_prefix'', ''series_suffix'']"
    by (simp add: has_cols_def)
  from assms(2,3) have h: "has_cols t (map fst (settings_where p s @ default_flags @ vals))"
    by (simp add: has_cols_def settings_where_def default_flags_def)
  from assms(4) have b: "list_all binds (map snd (settings_where p s @ default_flags @ vals))"
    by (simp add: settings_where_def default_flags_def binds_def sqlite_int_def)
  from assms(5) have ne: "\<not> series_settings_exist p s db"
    by (simp add: series_settings_exist_rows[OF assms(1) k])
  from assms(5) have "\<not> list_ex (wh_match (settings_where p s)) (rows t)"
    by (simp add: has_settings_row_eq[OF assms(1)])
  then have "\<not> list_ex (same_key settings_key
       (new_row t (settings_where p s @ default_flags @ vals))) (rows t)"
    by (simp add: list_ex_iff same_key_settings[OF k])
  with h b assms(1) ne show ?thesis
    by (simp add: insert_or_update_def sql_insert_def)
qed

lemma insert_or_update_existing:
  assumes "series_settings db = Some t"
    and "has_cols t [''series_prefix'', ''series_suffix'']"
    and "has_cols t (map fst vals)"
    and "list_all binds (map snd vals)"
    and "has_settings_row p s db"
  shows "insert_or_update p s vals db =
     (Returned True, db\<lparr>series_settings := Some (t\<lparr>rows :=
        map (\<lambda>r. if wh_match (settings_where p s) r then assign vals r else r) (rows t)\<rparr>)\<rparr>)"
proof -
  from assms(2,3) have h: "has_cols t (map fst vals @ map fst (settings_where p s))"
    by (simp add: has_cols_def settings_where_def)
  from assms(4) have b: "list_all binds (map snd vals @ map snd (settings_where p s))"
    by (simp add: settings_where_def binds_def)
  from assms(5) have ex: "series_settings_exist p s db"
    by (simp add: series_settings_exist_rows[OF assms(1,2)])
  with h b assms(1) show ?thesis
    by (simp add: insert_or_update_def sql_update_def)
qed

lemma insert_or_update_overflow:
  assumes "series_settings db = Some t"
    and "has_cols t [''series_prefix'', ''series_suffix'', ''autoplay'', ''skip_intro'', ''skip_outro'']"
    and "has_cols t (map fst vals)"
    and "\<not> list_all binds (map snd vals)"
  shows "insert_or_update p s vals db = (Raised OverflowError, db)"
proof -
  from assms(2,3) have h1: "has_cols t (map fst (settings_where p s @ default_flags @ vals))"
    and h2: "has_cols t (map fst vals @ map fst (settings_where p s))"
    by (simp_all add: has_cols_def settings_where_def default_flags_def)
  from assms(4) have b1: "\<not> list_all binds (map snd (settings_where p s @ default_flags @ vals))"
    and b2: "\<not> list_all binds (map snd vals @ map snd (settings_where p s))"
    by simp_all
  from h1 b1 assms(1)
  have i: "sql_insert settings_key (settings_where p s @ default_flags @ vals) (series_settings db)
             = Inl OverflowError"
    unfolding sql_insert_def by simp
  from h2 b2 assms(1)
  have u: "sql_update vals (settings_where p s) (series_settings db) = Inl OverflowError"
    unfolding sql_update_def by simp
  show ?thesis unfolding insert_or_update_def i u by simp
qed

lemma settings_okD:
  "settings_ok db \<Longrightarrow> \<exists>t. series_settings db = Some t \<and> wf_table t \<and>
      has_cols t [''series_prefix'', ''series_suffix'', ''autoplay'', ''skip_intro'',
                  ''skip_outro'', ''intro_start'', ''intro_end'']"
  by (auto simp: settings_ok_def split: option.splits)

lemma wf_table_row_keys:
  "wf_table t \<Longrightarrow> r \<in> set (rows t) \<Longrightarrow> has_cols t [c] \<Longrightarrow> c \<in> set (map fst r)"
  by (auto simp: wf_table_def has_cols_def list_all_iff)

text \<open>
  C5 (as amended). set_intro_markers(prefix, suffix, start, end) returns False and leaves
  the store as it is whenever start < 0, end < 0 or end <= start. When the values pass
  that check and end is an integer SQLite stores (below 2^63), on a store whose settings
  table has the columns the statement names: if the table holds no row for (prefix,
  suffix), one row is appended; it holds the key, the three flags 0, intro_start and
  intro_end as given, and the column default in every other column. If it holds a row
  for (prefix, suffix), the table keeps its columns and its rows in place; that row gets
  intro_start and intro_end as given and keeps every other cell, and every other row is
  unchanged. When the values pass the check and end is 2^63 or more, the call raises
  OverflowError and leaves the store as it is. The playback table is untouched in all
  cases.
\<close>

theorem set_intro_markers_contract:
  "((start < 0 \<or> end < 0 \<or> end \<le> start) \<longrightarrow>
      set_intro_markers p s start end db = (Returned False, db))
   \<and> (settings_ok db \<and> 0 \<le> start \<and> start < end \<and> sqlite_int end \<and>
       \<not> has_settings_row p s db \<longrightarrow>
        (\<exists>t r. series_settings db = Some t \<and>
           set_intro_markers p s start end db
             = (Returned True, db\<lparr>series_settings := Some (t\<lparr>rows := rows t @ [r]\<rparr>)\<rparr>) \<and>
           map fst r = map fst (columns t) \<and>
           cell r ''series_prefix'' = Text p \<and> cell r ''series_suffix'' = Text s \<and>
           cell r ''intro_start'' = Integer start \<and> cell r ''intro_end'' = Integer end \<and>
           cell r ''autoplay'' = Integer 0 \<and> cell r ''skip_intro'' = Integer 0 \<and>
           cell r ''skip_outro'' = Integer 0 \<and>
           (\<forall>c. c \<notin> set [''series_prefix'', ''series_suffix'', ''autoplay'', ''skip_intro'',
                           ''skip_outro'', ''intro_start'', ''intro_end''] \<longrightarrow>
                cell r c = cell (columns t) c)))
   \<and> (settings_ok db \<and> 0 \<le> start \<and> start < end \<and> sqlite_int end \<and>
       has_settings_row p s db \<longrightarrow>
        (\<exists>t t'. series_settings db = Some t \<and>
           set_intro_markers p s start end db
             = (Returned True, db\<lparr>series_settings := Some t'\<rparr>) \<and>
           columns t' = columns t \<and> length (rows t') = length (rows t) \<and>
           (\<forall>i<length (rows t).
              if cell (rows t ! i) ''series_prefix'' = Text p \<and>
                 cell (rows t ! i) ''series_suffix'' = Text s
              then cell (rows t' ! i) ''intro_start'' = Integer start \<and>
                   cell (rows t' ! i) ''intro_end'' = Integer end \<and>
                   map fst (rows t' ! i) = map fst (rows t ! i) \<and>
                   (\<forall>c. c \<notin> set [''intro_start'', ''intro_end''] \<longrightarrow>
                        cell (rows t' ! i) c = cell (rows t ! i) c)
              else rows t' ! i = rows t ! i)))
   \<and> (settings_ok db \<and> 0 \<le> start \<and> start < end \<and> \<not> sqlite_int end \<longrightarrow>
        set_intro_markers p s start end db = (Raised OverflowError, db))"
proof (intro conjI impI)
  assume "start < 0 \<or> end < 0 \<or> end \<le> start"
  then show "set_intro_markers p s start end db = (Returned False, db)"
    by (auto simp: set_intro_markers_def)
next
  let ?vals = "[(''intro_start'', Integer start), (''intro_end'', Integer end)]"
  assume a: "settings_ok db \<and> 0 \<le> start \<and> start < end \<and> sqlite_int end \<and>
       \<not> has_settings_row p s db"
  then obtain t where t: "series_settings db = Some t" and wf: "wf_table t"
    and hc: "has_cols t [''series_prefix'', ''series_suffix'', ''autoplay'', ''skip_intro'',
                  ''skip_outro'', ''intro_start'', ''intro_end'']"
    using settings_okD by blast
  let ?r = "new_row t (settings_where p s @ default_flags @ ?vals)"
  from hc have h1: "has_cols t [''series_prefix'', ''series_suffix'', ''autoplay'',
      ''skip_intro'', ''skip_outro'']" and h2: "has_cols t (map fst ?vals)"
    by (simp_all add: has_cols_def)
  from a have b: "list_all binds (map snd ?vals)"
    by (simp add: binds_def sqlite_int_def)
  from a have "set_intro_markers p s start end db = insert_or_update p s ?vals db"
    by (simp add: set_intro_markers_def)
  also have "\<dots> = (Returned True, db\<lparr>series_settings := Some (t\<lparr>rows := rows t @ [?r]\<rparr>)\<rparr>)"
    using a by (intro insert_or_update_new[OF t h1 h2 b]) simp
  finally have res: "set_intro_markers p s start end db
      = (Returned True, db\<lparr>series_settings := Some (t\<lparr>rows := rows t @ [?r]\<rparr>)\<rparr>)" .
  have cells: "cell ?r ''series_prefix'' = Text p" "cell ?r ''series_suffix'' = Text s"
    "cell ?r ''intro_start'' = Integer start" "cell ?r ''intro_end'' = Integer end"
    "cell ?r ''autoplay'' = Integer 0" "cell ?r ''skip_intro'' = Integer 0"
    "cell ?r ''skip_outro'' = Integer 0"
    using hc by (simp_all add: cell_new_row has_cols_def settings_where_def default_flags_def)
  have other: "\<forall>c. c \<notin> set [''series_prefix'', ''series_suffix'', ''autoplay'', ''skip_intro'',
                           ''skip_outro'', ''intro_start'', ''intro_end''] \<longrightarrow>
                cell ?r c = cell (columns t) c"
  proof (intro allI impI)
    fix c
    assume "c \<notin> set [''series_prefix'', ''series_suffix'', ''autoplay'', ''skip_intro'',
                           ''skip_outro'', ''intro_start'', ''intro_end'']"
    then have m: "map_of (settings_where p s @ default_flags @ ?vals) c = None"
      by (simp add: settings_where_def default_flags_def)
    show "cell ?r c = cell (columns t) c"
      unfolding cell_new_row m by (simp add: cell_absent)
  qed
  from t res cells other map_fst_new_row[of t]
  show "(\<exists>t r. series_settings db = Some t \<and>
           set_intro_markers p s start end db
             = (Returned True, db\<lparr>series_settings := Some (t\<lparr>rows := rows t @ [r]\<rparr>)\<rparr>) \<and>
           map fst r = map fst (columns t) \<and>
           cell r ''series_prefix'' = Text p \<and> cell r ''series_suffix'' = Text s \<and>
           cell r ''intro_start'' = Integer start \<and> cell r ''intro_end'' = Integer end \<and>
           cell r ''autoplay'' = Integer 0 \<and> cell r ''skip_intro'' = Integer 0 \<and>
           cell r ''skip_outro'' = Integer 0 \<and>
           (\<forall>c. c \<notin> set [''series_prefix'', ''series_suffix'', ''autoplay'', ''skip_intro'',
                           ''skip_outro'', ''intro_start'', ''intro_end''] \<longrightarrow>
                cell r c = cell (columns t) c))"
    by blast
next
  let ?vals = "[(''intro_start'', Integer start), (''intro_end'', Integer end)]"
  assume a: "settings_ok db \<and> 0 \<le> start \<and> start < end \<and> sqlite_int end \<and>
       has_settings_row p s db"
  then obtain t where t: "series_settings db = Some t" and wf: "wf_table t"
    and hc: "has_cols t [''series_prefix'', ''series_suffix'', ''autoplay'', ''skip_intro'',
                  ''skip_outro'', ''intro_start'', ''intro_end'']"
    using settings_okD by blast
  let ?f = "\<lambda>r. if wh_match (settings_where p s) r then assign ?vals r else r"
  let ?t' = "t\<lparr>rows := map ?f (rows t)\<rparr>"
  from hc have h1: "has_cols t [''series_prefix'', ''series_suffix'']"
    and h2: "has_cols t (map fst ?vals)"
    and h3: "has_cols t [''intro_start'']" and h4: "has_cols t [''intro_end'']"
    by (simp_all add: has_cols_def)
  from a have b: "list_all binds (map snd ?vals)"
    by (simp add: binds_def sqlite_int_def)
  from a have "set_intro_markers p s start end db = insert_or_update p s ?vals db"
    by (simp add: set_intro_markers_def)
  also have "\<dots> = (Returned True, db\<lparr>series_settings := Some ?t'\<rparr>)"
    using a by (intro insert_or_update_existing[OF t h1 h2 b]) simp
  finally have res: "set_intro_markers p s start end db
      = (Returned True, db\<lparr>series_settings := Some ?t'\<rparr>)" .
  have rows: "\<forall>i<length (rows t).
              if cell (rows t ! i) ''series_prefix'' = Text p \<and>
                 cell (rows t ! i) ''series_suffix'' = Text s
              then cell (rows ?t' ! i) ''intro_start'' = Integer start \<and>
                   cell (rows ?t' ! i) ''intro_end'' = Integer end \<and>
                   map fst (rows ?t' ! i) = map fst (rows t ! i) \<and>
                   (\<forall>c. c \<notin> set [''intro_start'', ''intro_end''] \<longrightarrow>
                        cell (rows ?t' ! i) c = cell (rows t ! i) c)
              else rows ?t' ! i = rows t ! i"
  proof (intro allI impI)
    fix i assume i: "i < length (rows t)"
    then have mem: "rows t ! i \<in> set (rows t)" by simp
    have k1: "''intro_start'' \<in> set (map fst (rows t ! i))"
      by (rule wf_table_row_keys[OF wf mem h3])
    have k2: "''intro_end'' \<in> set (map fst (rows t ! i))"
      by (rule wf_table_row_keys[OF wf mem h4])
    have c1: "cell (assign ?vals (rows t ! i)) ''intro_start'' = Integer start"
      by (rule cell_assign_hit[OF _ k1]) simp
    have c2: "cell (assign ?vals (rows t ! i)) ''intro_end'' = Integer end"
      by (rule cell_assign_hit[OF _ k2]) simp
    have c3: "\<forall>c. c \<notin> set [''intro_start'', ''intro_end''] \<longrightarrow>
        cell (assign ?vals (rows t ! i)) c = cell (rows t ! i) c"
      by (simp add: cell_assign_other)
    from i c1 c2 c3 show "if cell (rows t ! i) ''series_prefix'' = Text p \<and>
                 cell (rows t ! i) ''series_suffix'' = Text s
              then cell (rows ?t' ! i) ''intro_start'' = Integer start \<and>
                   cell (rows ?t' ! i) ''intro_end'' = Integer end \<and>
                   map fst (rows ?t' ! i) = map fst (rows t ! i) \<and>
                   (\<forall>c. c \<notin> set [''intro_start'', ''intro_end''] \<longrightarrow>
                        cell (rows ?t' ! i) c = cell (rows t ! i) c)
              else rows ?t' ! i = rows t ! i"
      by (simp add: wh_match_settings map_fst_assign)
  qed
  have "columns ?t' = columns t" "length (rows ?t') = length (rows t)" by simp_all
  with t res rows
  show "(\<exists>t t'. series_settings db = Some t \<and>
           set_intro_markers p s start end db
             = (Returned True, db\<lparr>series_settings := Some t'\<rparr>) \<and>
           columns t' = columns t \<and> length (rows t') = length (rows t) \<and>
           (\<forall>i<length (rows t).
              if cell (rows t ! i) ''series_prefix'' = Text p \<and>
                 cell (rows t ! i) ''series_suffix'' = Text s
              then cell (rows t' ! i) ''intro_start'' = Integer start \<and>
                   cell (rows t' ! i) ''intro_end'' = Integer end \<and>
                   map fst (rows t' ! i) = map fst (rows t ! i) \<and>
                   (\<forall>c. c \<notin> set [''intro_start'', ''intro_end''] \<longrightarrow>
                        cell (rows t' ! i) c = cell (rows t ! i) c)
              else rows t' ! i = rows t ! i))"
    by blast
next
  let ?vals = "[(''intro_start'', Integer start), (''intro_end'', Integer end)]"
  assume a: "settings_ok db \<and> 0 \<le> start \<and> start < end \<and> \<not> sqlite_int end"
  then obtain t where t: "series_settings db = Some t"
    and hc: "has_cols t [''series_prefix'', ''series_suffix'', ''autoplay'', ''skip_intro'',
                  ''skip_outro'', ''intro_start'', ''intro_end'']"
    using settings_okD by blast
  from hc have h1: "has_cols t [''series_prefix'', ''series_suffix'', ''autoplay'',
      ''skip_intro'', ''skip_outro'']" and h2: "has_cols t (map fst ?vals)"
    by (simp_all add: has_cols_def)
  from a have b: "\<not> list_all binds (map snd ?vals)"
    by (simp add: binds_def)
  from a have "set_intro_markers p s start end db = insert_or_update p s ?vals db"
    by (simp add: set_intro_markers_def)
  also have "\<dots> = (Raised OverflowError, db)"
    by (rule insert_or_update_overflow[OF t h1 h2 b])
  finally show "set_intro_markers p s start end db = (Raised OverflowError, db)" .
qed

text \<open>
  Stores to run the theorem on: the store of a first start, the store of version 1.0.0
  after \<^verbatim>\<open>init_db\<close>, which has a settings row for Show / S01, and that store with a
  second row for Other / S02.
\<close>

lemma migrated_v1_eq:
  "snd (init_db store_v1) =
      \<lparr>playback = Some \<lparr>columns = playback_schema_v1 @ [(''outro_triggered'', Integer 0)],
         rows = [[(''filename'', Text ''a.mkv''), (''position'', Integer 10),
                  (''duration'', Integer 100), (''percent'', Integer 10),
                  (''series_prefix'', Null), (''series_suffix'', Null),
                  (''description'', Null), (''outro_triggered'', Integer 0)]]\<rparr>,
       series_settings = Some \<lparr>columns = settings_schema_v1 @ [(''credits_duration'', Null)],
         rows = [[(''series_prefix'', Text ''Show''), (''series_suffix'', Text ''S01''),
                  (''autoplay'', Integer 1), (''skip_intro'', Integer 0),
                  (''skip_outro'', Integer 0), (''intro_start'', Null), (''intro_end'', Null),
                  (''outro_start'', Integer 300), (''description'', Null),
                  (''credits_duration'', Null)]]\<rparr>\<rparr>"
  by (simp add: init_db_eq store_v1_def sql_create_if_not_exists_def with_column_def
      has_cols_def playback_schema_v1_def settings_schema_v1_def)

lemma two_rows_eq:
  "snd (set_intro_markers ''Other'' ''S02'' 10 20 (snd (init_db store_v1))) =
      (snd (init_db store_v1))\<lparr>series_settings :=
         Some \<lparr>columns = settings_schema_v1 @ [(''credits_duration'', Null)],
         rows = [[(''series_prefix'', Text ''Show''), (''series_suffix'', Text ''S01''),
                  (''autoplay'', Integer 1), (''skip_intro'', Integer 0),
                  (''skip_outro'', Integer 0), (''intro_start'', Null), (''intro_end'', Null),
                  (''outro_start'', Integer 300), (''description'', Null),
                  (''credits_duration'', Null)],
                 [(''series_prefix'', Text ''Other''), (''series_suffix'', Text ''S02''),
                  (''autoplay'', Integer 0), (''skip_intro'', Integer 0),
                  (''skip_outro'', Integer 0), (''intro_start'', Integer 10),
                  (''intro_end'', Integer 20), (''outro_start'', Null), (''description'', Null),
                  (''credits_duration'', Null)]]\<rparr>\<rparr>"
  unfolding migrated_v1_eq
  by (simp add: set_intro_markers_def insert_or_update_def series_settings_exist_def
      sql_select_def sql_insert_def has_cols_def settings_where_def default_flags_def
      settings_schema_v1_def new_row_def assign_def binds_def sqlite_int_def wh_match_def
      cell_def same_key_def settings_key_def)

lemma settings_ok_fresh: "settings_ok fresh"
  by (simp add: fresh_eq settings_ok_def wf_table_def has_cols_def settings_schema_def)

lemma settings_ok_migrated_v1: "settings_ok (snd (init_db store_v1))"
  unfolding migrated_v1_eq
  by (simp add: settings_ok_def wf_table_def has_cols_def settings_schema_v1_def)

lemma settings_ok_two_rows:
  "settings_ok (snd (set_intro_markers ''Other'' ''S02'' 10 20 (snd (init_db store_v1))))"
  unfolding two_rows_eq unfolding migrated_v1_eq
  by (simp add: settings_ok_def wf_table_def has_cols_def settings_schema_v1_def)

lemma no_settings_fresh: "\<not> has_settings_row p s fresh"
  by (simp add: fresh_eq has_settings_row_def settings_rows_def)

lemma no_other_row_migrated_v1: "\<not> has_settings_row ''Other'' ''S02'' (snd (init_db store_v1))"
  unfolding migrated_v1_eq
  by (simp add: has_settings_row_def settings_rows_def cell_def)

lemma show_row_two_rows:
  "has_settings_row ''Show'' ''S01'' (snd (set_intro_markers ''Other'' ''S02'' 10 20 (snd (init_db store_v1))))"
  unfolding two_rows_eq unfolding migrated_v1_eq
  by (simp add: has_settings_row_def settings_rows_def cell_def)

theorem set_intro_markers_contract_witness:
  "set_intro_markers ''Show'' ''S01'' 20 10 fresh = (Returned False, fresh)
   \<and> settings_ok fresh \<and> \<not> has_settings_row ''Show'' ''S01'' fresh \<and> sqlite_int 20
   \<and> (\<exists>t r. series_settings fresh = Some t \<and>
           set_intro_markers ''Show'' ''S01'' 10 20 fresh
             = (Returned True, fresh\<lparr>series_settings := Some (t\<lparr>rows := rows t @ [r]\<rparr>)\<rparr>) \<and>
           map fst r = map fst (columns t) \<and>
           cell r ''series_prefix'' = Text ''Show'' \<and> cell r ''series_suffix'' = Text ''S01'' \<and>
           cell r ''intro_start'' = Integer 10 \<and> cell r ''intro_end'' = Integer 20 \<and>
           cell r ''autoplay'' = Integer 0 \<and> cell r ''skip_intro'' = Integer 0 \<and>
           cell r ''skip_outro'' = Integer 0 \<and>
           (\<forall>c. c \<notin> set [''series_prefix'', ''series_suffix'', ''autoplay'', ''skip_intro'',
                           ''skip_outro'', ''intro_start'', ''intro_end''] \<longrightarrow>
                cell r c = cell (columns t) c))
   \<and> settings_ok (snd (init_db store_v1)) \<and> \<not> has_settings_row ''Other'' ''S02'' (snd (init_db store_v1))
   \<and> (\<exists>t r. series_settings (snd (init_db store_v1)) = Some t \<and>
           set_intro_markers ''Other'' ''S02'' 10 20 (snd (init_db store_v1))
             = (Returned True, (snd (init_db store_v1))\<lparr>series_settings := Some (t\<lparr>rows := rows t @ [r]\<rparr>)\<rparr>) \<and>
           map fst r = map fst (columns t) \<and>
           cell r ''series_prefix'' = Text ''Other'' \<and> cell r ''series_suffix'' = Text ''S02'' \<and>
           cell r ''intro_start'' = Integer 10 \<and> cell r ''intro_end'' = Integer 20 \<and>
           cell r ''autoplay'' = Integer 0 \<and> cell r ''skip_intro'' = Integer 0 \<and>
           cell r ''skip_outro'' = Integer 0 \<and>
           (\<forall>c. c \<notin> set [''series_prefix'', ''series_suffix'', ''autoplay'', ''skip_intro'',
                           ''skip_outro'', ''intro_start'', ''intro_end''] \<longrightarrow>
                cell r c = cell (columns t) c))
   \<and> settings_ok (snd (set_intro_markers ''Other'' ''S02'' 10 20 (snd (init_db store_v1))))
   \<and> has_settings_row ''Show'' ''S01'' (snd (set_intro_markers ''Other'' ''S02'' 10 20 (snd (init_db store_v1)))) \<and> sqlite_int 90
   \<and> (\<exists>t t'. series_settings (snd (set_intro_markers ''Other'' ''S02'' 10 20 (snd (init_db store_v1)))) = Some t \<and>
           set_intro_markers ''Show'' ''S01'' 30 90 (snd (set_intro_markers ''Other'' ''S02'' 10 20 (snd (init_db store_v1))))
             = (Returned True, (snd (set_intro_markers ''Other'' ''S02'' 10 20 (snd (init_db store_v1))))\<lparr>series_settings := Some t'\<rparr>) \<and>
           columns t' = columns t \<and> length (rows t') = length (rows t) \<and>
           (\<forall>i<length (rows t).
              if cell (rows t ! i) ''series_prefix'' = Text ''Show'' \<and>
                 cell (rows t ! i) ''series_suffix'' = Text ''S01''
              then cell (rows t' ! i) ''intro_start'' = Integer 30 \<and>
                   cell (rows t' ! i) ''intro_end'' = Integer 90 \<and>
                   map fst (rows t' ! i) = map fst (rows t ! i) \<and>
                   (\<forall>c. c \<notin> set [''intro_start'', ''intro_end''] \<longrightarrow>
                        cell (rows t' ! i) c = cell (rows t ! i) c)
              else rows t' ! i = rows t ! i))
   \<and> \<not> sqlite_int 9223372036854775808
   \<and> set_intro_markers ''Show'' ''S01'' 0 9223372036854775808 fresh = (Raised OverflowError, fresh)"
proof -
  have i: "sqlite_int 20" "sqlite_int 90" "\<not> sqlite_int 9223372036854775808"
    by (simp_all add: sqlite_int_def)
  have a: "set_intro_markers ''Show'' ''S01'' 20 10 fresh = (Returned False, fresh)"
    using set_intro_markers_contract[of 20 10 "''Show''" "''S01''" fresh] by simp
  have b: "(\<exists>t r. series_settings fresh = Some t \<and>
           set_intro_markers ''Show'' ''S01'' 10 20 fresh
             = (Returned True, fresh\<lparr>series_settings := Some (t\<lparr>rows := rows t @ [r]\<rparr>)\<rparr>) \<and>
           map fst r = map fst (columns t) \<and>
           cell r ''series_prefix'' = Text ''Show'' \<and> cell r ''series_suffix'' = Text ''S01'' \<and>
           cell r ''intro_start'' = Integer 10 \<and> cell r ''intro_end'' = Integer 20 \<and>
           cell r ''autoplay'' = Integer 0 \<and> cell r ''skip_intro'' = Integer 0 \<and>
           cell r ''skip_outro'' = Integer 0 \<and>
           (\<forall>c. c \<notin> set [''series_prefix'', ''series_suffix'', ''autoplay'', ''skip_intro'',
                           ''skip_outro'', ''intro_start'', ''intro_end''] \<longrightarrow>
                cell r c = cell (columns t) c))"
    using set_intro_markers_contract[of 10 20 "''Show''" "''S01''" fresh]
      settings_ok_fresh no_settings_fresh[of "''Show''" "''S01''"] i(1) by simp
  have b2: "(\<exists>t r. series_settings (snd (init_db store_v1)) = Some t \<and>
           set_intro_markers ''Other'' ''S02'' 10 20 (snd (init_db store_v1))
             = (Returned True, (snd (init_db store_v1))\<lparr>series_settings := Some (t\<lparr>rows := rows t @ [r]\<rparr>)\<rparr>) \<and>
           map fst r = map fst (columns t) \<and>
           cell r ''series_prefix'' = Text ''Other'' \<and> cell r ''series_suffix'' = Text ''S02'' \<and>
           cell r ''intro_start'' = Integer 10 \<and> cell r ''intro_end'' = Integer 20 \<and>
           cell r ''autoplay'' = Integer 0 \<and> cell r ''skip_intro'' = Integer 0 \<and>
           cell r ''skip_outro'' = Integer 0 \<and>
           (\<forall>c. c \<notin> set [''series_prefix'', ''series_suffix'', ''autoplay'', ''skip_intro'',
                           ''skip_outro'', ''intro_start'', ''intro_end''] \<longrightarrow>
                cell r c = cell (columns t) c))"
    using set_intro_markers_contract[of 10 20 "''Other''" "''S02''" "(snd (init_db store_v1))"]
      settings_ok_migrated_v1 no_other_row_migrated_v1 i(1) by simp
  have c: "(\<exists>t t'. series_settings (snd (set_intro_markers ''Other'' ''S02'' 10 20 (snd (init_db store_v1)))) = Some t \<and>
           set_intro_markers ''Show'' ''S01'' 30 90 (snd (set_intro_markers ''Other'' ''S02'' 10 20 (snd (init_db store_v1))))
             = (Returned True, (snd (set_intro_markers ''Other'' ''S02'' 10 20 (snd (init_db store_v1))))\<lparr>series_settings := Some t'\<rparr>) \<and>
           columns t' = columns t \<and> length (rows t') = length (rows t) \<and>
           (\<forall>i<length (rows t).
              if cell (rows t ! i) ''series_prefix'' = Text ''Show'' \<and>
                 cell (rows t ! i) ''series_suffix'' = Text ''S01''
              then cell (rows t' ! i) ''intro_start'' = Integer 30 \<and>
                   cell (rows t' ! i) ''intro_end'' = Integer 90 \<and>
                   map fst (rows t' ! i) = map fst (rows t ! i) \<and>
                   (\<forall>c. c \<notin> set [''intro_start'', ''intro_end''] \<longrightarrow>
                        cell (rows t' ! i) c = cell (rows t ! i) c)
              else rows t' ! i = rows t ! i))"
    using set_intro_markers_contract[of 30 90 "''Show''" "''S01''" "(snd (set_intro_markers ''Other'' ''S02'' 10 20 (snd (init_db store_v1))))"]
      settings_ok_two_rows show_row_two_rows i(2) by simp
  have d: "set_intro_markers ''Show'' ''S01'' 0 9223372036854775808 fresh = (Raised OverflowError, fresh)"
    using set_intro_markers_contract[of 0 9223372036854775808 "''Show''" "''S01''" fresh]
      settings_ok_fresh i(3) by simp
  from a b b2 c d i settings_ok_fresh no_settings_fresh[of "''Show''" "''S01''"]
    settings_ok_migrated_v1 no_other_row_migrated_v1 settings_ok_two_rows show_row_two_rows
  show ?thesis by blast
qed

text \<open>
  C5 as stated fails for a value SQLite does not store. On the store of a first start,
  set_intro_markers("Show", "S01", 0, 2^63) passes the check (0 >= 0, 2^63 > 0) and no
  row exists, but binding 2^63 raises OverflowError, which the method does not catch: no
  row is created.
\<close>

theorem set_intro_markers_overflow_counterexample:
  "\<not> ((0::int) < 0 \<or> (9223372036854775808::int) < 0 \<or> (9223372036854775808::int) \<le> 0)
   \<and> \<not> has_settings_row ''Show'' ''S01'' fresh
   \<and> set_intro_markers ''Show'' ''S01'' 0 9223372036854775808 fresh = (Raised OverflowError, fresh)
   \<and> settings_rows (snd (set_intro_markers ''Show'' ''S01'' 0 9223372036854775808 fresh)) = []"
  by (simp add: fresh_eq has_settings_row_def settings_rows_def set_intro_markers_def
      insert_or_update_def series_settings_exist_def sql_select_def sql_insert_def has_cols_def
      settings_where_def default_flags_def settings_schema_def binds_def sqlite_int_def)

section \<open>Saving playback: upsert by filename\<close>

lemma same_key_playback:
  "has_cols t [''filename''] \<Longrightarrow>
   same_key playback_key (new_row t ((''filename'', Text f) # rest))
     = (\<lambda>r. cell r ''filename'' = Text f)"
  by (rule ext) (simp add: same_key_def playback_key_def cell_new_row has_cols_def)

lemma sql_upsert_playback:
  "sql_upsert playback_key ((''filename'', Text f) # rest) upd (Some t) =
     (if has_cols t (''filename'' # map fst rest @ ''filename'' # map fst upd)
      then if list_all binds (map snd rest @ map snd upd)
           then Inr (t\<lparr>rows :=
                  if list_ex (\<lambda>r. cell r ''filename'' = Text f) (rows t)
                  then map (\<lambda>r. if cell r ''filename'' = Text f then assign upd r else r)
                         (rows t)
                  else rows t @ [new_row t ((''filename'', Text f) # rest)]\<rparr>)
           else Inl OverflowError
      else Inl OperationalError)"
proof (cases "has_cols t (''filename'' # map fst rest @ ''filename'' # map fst upd)")
  case True
  then have k: "has_cols t [''filename'']" by (simp add: has_cols_def)
  from True show ?thesis
    by (simp add: sql_upsert_def same_key_playback[OF k] binds_def)
       (simp add: playback_key_def)
next
  case False
  then show ?thesis by (simp add: sql_upsert_def playback_key_def)
qed

lemma sql_upsert_playback_idem:
  assumes nk: "map_of upd ''filename'' = None"
    and sub: "\<And>c v. map_of upd c = Some v \<Longrightarrow> map_of rest c = Some v"
    and first: "sql_upsert playback_key ((''filename'', Text f) # rest) upd tab = Inr t1"
  shows "sql_upsert playback_key ((''filename'', Text f) # rest) upd (Some t1) = Inr t1"
proof -
  let ?asg = "(''filename'', Text f) # rest"
  let ?P = "\<lambda>r. cell r ''filename'' = Text f"
  let ?g = "\<lambda>r. if ?P r then assign upd r else r"
  from first obtain t where tab: "tab = Some t"
    by (cases tab) (simp_all add: sql_upsert_def)
  from first tab have hc: "has_cols t (''filename'' # map fst rest @ ''filename'' # map fst upd)"
    and bd: "list_all binds (map snd rest @ map snd upd)"
    by (simp_all add: sql_upsert_playback split: if_splits)
  then have k: "''filename'' \<in> fst ` set (columns t)" by (simp add: has_cols_def)
  have t1: "t1 = t\<lparr>rows := if list_ex ?P (rows t) then map ?g (rows t)
                            else rows t @ [new_row t ?asg]\<rparr>"
    using first tab hc bd by (simp add: sql_upsert_playback)
  have Pg: "?P (?g r) = ?P r" for r by (simp add: cell_assign_other nk)
  have gg: "?g (?g r) = ?g r" for r by (simp add: cell_assign_other nk assign_idem)
  have Pnew: "?P (new_row t ?asg)" using k by (simp add: cell_new_row)
  have sub': "\<And>c v. map_of upd c = Some v \<Longrightarrow> map_of ?asg c = Some v"
    using nk sub by auto
  have gnew: "?g (new_row t ?asg) = new_row t ?asg"
    unfolding new_row_def using assign_absorb[of upd ?asg "columns t"] sub'
    by simp
  have cols: "columns t1 = columns t" by (simp add: t1)
  then have hc1: "has_cols t1 (''filename'' # map fst rest @ ''filename'' # map fst upd)"
    and nr1: "new_row t1 ?asg = new_row t ?asg"
    using hc by (simp_all add: has_cols_def new_row_def)
  have ex1: "list_ex ?P (rows t1)"
  proof (cases "list_ex ?P (rows t)")
    case True
    then obtain r where r: "r \<in> set (rows t)" "?P r" by (auto simp: list_ex_iff)
    then have "?g r \<in> set (map ?g (rows t))" "?P (?g r)"
      by (simp_all add: cell_assign_other nk)
    then have "list_ex ?P (map ?g (rows t))" unfolding list_ex_iff by blast
    with True show ?thesis by (simp add: t1)
  next
    case False
    then show ?thesis using Pnew by (simp add: t1)
  qed
  have map1: "map ?g (rows t1) = rows t1"
  proof (cases "list_ex ?P (rows t)")
    case True
    then show ?thesis using gg by (simp add: t1)
  next
    case False
    then have "map ?g (rows t) = rows t" by (simp add: list_ex_iff map_idI)
    then show ?thesis using False gnew by (simp add: t1)
  qed
  show ?thesis
    unfolding sql_upsert_playback using hc1 bd ex1 map1 by simp
qed

lemma playback_values_sub:
  "map_of (playback_values pos dur pct pre suf) ''filename'' = None"
  by (simp add: playback_values_def)

lemma save_playback_idem:
  "snd (save_playback f pos dur pct pre suf (snd (save_playback f pos dur pct pre suf db)))
     = snd (save_playback f pos dur pct pre suf db)"
proof (cases "sql_upsert playback_key ((''filename'', Text f) # playback_values pos dur pct pre suf)
                (playback_values pos dur pct pre suf) (playback db)")
  case (Inl e)
  then show ?thesis by (cases e) (simp_all add: save_playback_def)
next
  case (Inr t1)
  from sql_upsert_playback_idem[OF playback_values_sub _ Inr]
  have "sql_upsert playback_key ((''filename'', Text f) # playback_values pos dur pct pre suf)
                (playback_values pos dur pct pre suf) (Some t1) = Inr t1"
    by simp
  with Inr show ?thesis by (simp add: save_playback_def)
qed


lemma assign_absorb_key:
  "map_of upd k = None \<Longrightarrow> assign upd (assign ((k, v) # upd) r) = assign ((k, v) # upd) r"
  by (rule assign_absorb) auto

lemma distinct_filter_single:
  "distinct (map k xs) \<Longrightarrow> list_ex (\<lambda>x. k x = v) xs \<Longrightarrow> \<exists>x. filter (\<lambda>x. k x = v) xs = [x]"
proof (induction xs)
  case Nil
  then show ?case by simp
next
  case (Cons a xs)
  show ?case
  proof (cases "k a = v")
    case True
    from Cons.prems(1) have "k a \<notin> k ` set xs" by simp
    with True have "\<And>x. x \<in> set xs \<Longrightarrow> k x \<noteq> v" by blast
    then have "filter (\<lambda>x. k x = v) xs = []"
      by (simp add: filter_empty_conv)
    with True show ?thesis by simp
  next
    case False
    with Cons show ?thesis by simp
  qed
qed

lemma distinct_filter_le_one:
  "distinct (map k xs) \<Longrightarrow> length (filter (\<lambda>x. k x = v) xs) \<le> 1"
proof (cases "list_ex (\<lambda>x. k x = v) xs")
  case True
  assume "distinct (map k xs)"
  from distinct_filter_single[OF this True] show ?thesis by auto
next
  case False
  then have "filter (\<lambda>x. k x = v) xs = []" by (simp add: list_ex_iff filter_empty_conv)
  then show ?thesis by simp
qed

lemma upsert_playback_keeps_invariant:
  assumes wf: "wf_table t"
    and dist: "distinct (map (\<lambda>r. cell r ''filename'') (rows t))"
    and nk: "map_of upd ''filename'' = None"
    and up: "sql_upsert playback_key ((''filename'', Text f) # rest) upd (Some t) = Inr t'"
  shows "columns t' = columns t \<and> wf_table t' \<and>
         distinct (map (\<lambda>r. cell r ''filename'') (rows t'))"
proof -
  let ?asg = "(''filename'', Text f) # rest"
  let ?P = "\<lambda>r. cell r ''filename'' = Text f"
  let ?g = "\<lambda>r. if ?P r then assign upd r else r"
  from up have hc: "has_cols t (''filename'' # map fst rest @ ''filename'' # map fst upd)"
    and bd: "list_all binds (map snd rest @ map snd upd)"
    by (simp_all add: sql_upsert_playback split: if_splits)
  then have k: "''filename'' \<in> fst ` set (columns t)" by (simp add: has_cols_def)
  have t': "t' = t\<lparr>rows := if list_ex ?P (rows t) then map ?g (rows t)
                            else rows t @ [new_row t ?asg]\<rparr>"
    using up hc bd by (simp add: sql_upsert_playback)
  have cg: "cell (?g r) ''filename'' = cell r ''filename''" for r
    by (simp add: cell_assign_other nk)
  have kg: "map fst (?g r) = map fst r" for r by (simp add: map_fst_assign)
  show ?thesis
  proof (cases "list_ex ?P (rows t)")
    case True
    then have rows: "rows t' = map ?g (rows t)" and cols: "columns t' = columns t"
      by (simp_all add: t')
    have "map (\<lambda>r. cell r ''filename'') (rows t') = map (\<lambda>r. cell r ''filename'') (rows t)"
      unfolding rows map_map comp_def cg ..
    moreover have "wf_table t'"
      using wf unfolding wf_table_def cols rows list_all_iff
      by (auto simp: map_fst_assign)
    ultimately show ?thesis using dist cols by simp
  next
    case False
    then have rows: "rows t' = rows t @ [new_row t ?asg]" and cols: "columns t' = columns t"
      by (simp_all add: t')
    have "cell (new_row t ?asg) ''filename'' = Text f" using k by (simp add: cell_new_row)
    moreover from False have "Text f \<notin> set (map (\<lambda>r. cell r ''filename'') (rows t))"
      by (auto simp: list_ex_iff)
    ultimately have "distinct (map (\<lambda>r. cell r ''filename'') (rows t'))"
      using dist by (simp add: rows)
    moreover have "wf_table t'"
      using wf unfolding wf_table_def cols rows by (simp add: map_fst_new_row)
    ultimately show ?thesis using cols by simp
  qed
qed

lemma playback_okD:
  "playback_ok db \<Longrightarrow> \<exists>t. playback db = Some t \<and> wf_table t \<and>
      has_cols t [''filename'', ''position'', ''duration'', ''percent'', ''status'',
                  ''series_prefix'', ''series_suffix''] \<and>
      distinct (map (\<lambda>r. cell r ''filename'') (rows t))"
  by (auto simp: playback_ok_def split: option.splits)

lemma has_cols_playback_values:
  "has_cols t [''filename'', ''position'', ''duration'', ''percent'', ''status'',
                  ''series_prefix'', ''series_suffix''] \<Longrightarrow>
   has_cols t (''filename'' # map fst (playback_values pos dur pct pre suf) @
               ''filename'' # map fst (playback_values pos dur pct pre suf))"
  by (simp add: has_cols_def playback_values_def)

lemma binds_playback_values:
  "sqlite_int pos \<Longrightarrow> sqlite_int dur \<Longrightarrow> sqlite_int pct \<Longrightarrow>
   list_all binds (map snd (playback_values pos dur pct pre suf) @
                   map snd (playback_values pos dur pct pre suf))"
  by (simp add: playback_values_def binds_def opt_text_def split: option.splits)

lemma save_playback_keeps_ok:
  assumes ok: "playback_ok db"
  shows "playback_ok (snd (save_playback f pos dur pct pre suf db))"
proof -
  from playback_okD[OF ok] obtain t where t: "playback db = Some t" and wf: "wf_table t"
    and hc: "has_cols t [''filename'', ''position'', ''duration'', ''percent'', ''status'',
                  ''series_prefix'', ''series_suffix'']"
    and dist: "distinct (map (\<lambda>r. cell r ''filename'') (rows t))"
    by blast
  show ?thesis
  proof (cases "sql_upsert playback_key
             ((''filename'', Text f) # playback_values pos dur pct pre suf)
             (playback_values pos dur pct pre suf) (Some t)")
    case (Inl e)
    with t ok show ?thesis by (cases e) (simp_all add: save_playback_def)
  next
    case (Inr t')
    from upsert_playback_keeps_invariant[OF wf dist playback_values_sub Inr]
    have inv: "columns t' = columns t" "wf_table t'"
      "distinct (map (\<lambda>r. cell r ''filename'') (rows t'))"
      by simp_all
    with hc have "has_cols t' [''filename'', ''position'', ''duration'', ''percent'',
        ''status'', ''series_prefix'', ''series_suffix'']"
      by (simp add: has_cols_def)
    with inv Inr t show ?thesis by (simp add: save_playback_def playback_ok_def)
  qed
qed

lemma save_playback_ok:
  assumes ok: "playback_ok db"
    and rng: "sqlite_int pos" "sqlite_int dur" "sqlite_int pct"
  shows "fst (save_playback f pos dur pct pre suf db) = Returned True"
    and "playback_ok (snd (save_playback f pos dur pct pre suf db))"
    and "\<exists>r. rows_for f (snd (save_playback f pos dur pct pre suf db)) = [r] \<and>
           cell r ''position'' = Integer pos \<and> cell r ''duration'' = Integer dur \<and>
           cell r ''percent'' = Integer pct \<and>
           cell r ''status'' = opt_text (calculate_status pct) \<and>
           cell r ''series_prefix'' = opt_text pre \<and> cell r ''series_suffix'' = opt_text suf"
proof -
  let ?upd = "playback_values pos dur pct pre suf"
  let ?asg = "(''filename'', Text f) # ?upd"
  let ?P = "\<lambda>r. cell r ''filename'' = Text f"
  let ?g = "\<lambda>r. if ?P r then assign ?upd r else r"
  from playback_okD[OF ok] obtain t where t: "playback db = Some t" and wf: "wf_table t"
    and hc: "has_cols t [''filename'', ''position'', ''duration'', ''percent'', ''status'',
                  ''series_prefix'', ''series_suffix'']"
    and dist: "distinct (map (\<lambda>r. cell r ''filename'') (rows t))"
    by blast
  let ?t' = "t\<lparr>rows := if list_ex ?P (rows t) then map ?g (rows t)
                            else rows t @ [new_row t ?asg]\<rparr>"
  have up: "sql_upsert playback_key ?asg ?upd (Some t) = Inr ?t'"
    using has_cols_playback_values[OF hc] binds_playback_values[OF rng]
    by (simp add: sql_upsert_playback)
  then have res: "save_playback f pos dur pct pre suf db
      = (Returned True, db\<lparr>playback := Some ?t'\<rparr>)"
    using t by (simp add: save_playback_def)
  then show "fst (save_playback f pos dur pct pre suf db) = Returned True" by simp
  from upsert_playback_keeps_invariant[OF wf dist playback_values_sub up]
  have inv: "columns ?t' = columns t" "wf_table ?t'"
      "distinct (map (\<lambda>r. cell r ''filename'') (rows ?t'))"
    by blast+
  with hc have "has_cols ?t' [''filename'', ''position'', ''duration'', ''percent'',
      ''status'', ''series_prefix'', ''series_suffix'']"
    by (simp add: has_cols_def)
  with inv show "playback_ok (snd (save_playback f pos dur pct pre suf db))"
    unfolding res by (simp add: playback_ok_def)
  have vals: "cell r ''position'' = Integer pos \<and> cell r ''duration'' = Integer dur \<and>
           cell r ''percent'' = Integer pct \<and>
           cell r ''status'' = opt_text (calculate_status pct) \<and>
           cell r ''series_prefix'' = opt_text pre \<and> cell r ''series_suffix'' = opt_text suf"
    if r: "r = assign ?upd r0" and keys: "map fst r0 = map fst (columns t)" for r r0
  proof -
    have m: "c \<in> set [''position'', ''duration'', ''percent'', ''status'',
                  ''series_prefix'', ''series_suffix''] \<Longrightarrow> c \<in> set (map fst r0)" for c
      using hc unfolding keys by (auto simp: has_cols_def)
    show ?thesis unfolding r
      by (intro conjI cell_assign_hit m) (simp_all add: playback_values_def)
  qed
  have "\<exists>r r0. rows_for f (db\<lparr>playback := Some ?t'\<rparr>) = [r] \<and> r = assign ?upd r0 \<and>
          map fst r0 = map fst (columns t)"
  proof (cases "list_ex ?P (rows t)")
    case True
    from distinct_filter_single[OF dist True] obtain r0 where r0: "filter ?P (rows t) = [r0]"
      by blast
    then have "r0 \<in> set (filter ?P (rows t))" by simp
    then have "r0 \<in> set (rows t)" "?P r0" by simp_all
    then have k0: "map fst r0 = map fst (columns t)"
      using wf by (auto simp: wf_table_def list_all_iff)
    have "filter ?P (map ?g (rows t)) = map ?g (filter ?P (rows t))"
      by (simp add: filter_map comp_def cell_assign_other playback_values_sub)
    with r0 \<open>?P r0\<close> have "filter ?P (map ?g (rows t)) = [assign ?upd r0]" by simp
    with True k0 show ?thesis
      by (auto simp: rows_for_def playback_rows_def intro!: exI[of _ r0])
  next
    case False
    then have "filter ?P (rows t) = []" by (simp add: list_ex_iff filter_empty_conv)
    moreover have "?P (new_row t ?asg)" using hc by (simp add: cell_new_row has_cols_def)
    moreover have "new_row t ?asg = assign ?upd (new_row t ?asg)"
      unfolding new_row_def by (simp add: assign_absorb_key playback_values_sub)
    ultimately show ?thesis using False
      by (auto simp: rows_for_def playback_rows_def map_fst_new_row
          intro!: exI[of _ "new_row t ?asg"])
  qed
  then show "\<exists>r. rows_for f (snd (save_playback f pos dur pct pre suf db)) = [r] \<and>
           cell r ''position'' = Integer pos \<and> cell r ''duration'' = Integer dur \<and>
           cell r ''percent'' = Integer pct \<and>
           cell r ''status'' = opt_text (calculate_status pct) \<and>
           cell r ''series_prefix'' = opt_text pre \<and> cell r ''series_suffix'' = opt_text suf"
    unfolding res snd_conv using vals by blast
qed


lemma cell_append_other: "c' \<noteq> c \<Longrightarrow> cell (r @ [(c, d)]) c' = cell r c'"
  by (simp add: cell_def map_add_def split: option.splits)

lemma playback_ok_cong: "playback db' = playback db \<Longrightarrow> playback_ok db' = playback_ok db"
  by (simp add: playback_ok_def)

lemma playback_ok_fresh: "playback_ok fresh"
  by (simp add: fresh_eq playback_ok_def wf_table_def has_cols_def playback_schema_def)

lemma playback_ok_with_column:
  assumes "c \<noteq> ''filename''"
    and "wf_table t"
    and "has_cols t [''filename'', ''position'', ''duration'', ''percent'', ''status'',
                  ''series_prefix'', ''series_suffix'']"
    and "distinct (map (\<lambda>r. cell r ''filename'') (rows t))"
  shows "wf_table (with_column c d t) \<and>
      has_cols (with_column c d t) [''filename'', ''position'', ''duration'', ''percent'',
         ''status'', ''series_prefix'', ''series_suffix''] \<and>
      distinct (map (\<lambda>r. cell r ''filename'') (rows (with_column c d t)))"
proof -
  have "map (\<lambda>r. cell r ''filename'') (rows (with_column c d t))
      = map (\<lambda>r. cell r ''filename'') (rows t)"
    using assms(1) by (simp add: with_column_def comp_def cell_append_other)
  moreover have "has_cols (with_column c d t) [''filename'', ''position'', ''duration'',
      ''percent'', ''status'', ''series_prefix'', ''series_suffix'']"
    using assms(3) by (simp add: with_column_def has_cols_def)
  ultimately show ?thesis using assms(2,4) wf_table_with_column by simp
qed

lemma init_db_playback_ok: "playback_ok db \<Longrightarrow> playback_ok (snd (init_db db))"
proof -
  assume "playback_ok db"
  from playback_okD[OF this] obtain t where t: "playback db = Some t" and wf: "wf_table t"
    and hc: "has_cols t [''filename'', ''position'', ''duration'', ''percent'', ''status'',
                  ''series_prefix'', ''series_suffix'']"
    and dist: "distinct (map (\<lambda>r. cell r ''filename'') (rows t))"
    by blast
  have "playback (snd (init_db db)) = Some (with_column ''outro_triggered'' (Integer 0) t)"
    by (simp add: init_db_eq t sql_create_if_not_exists_def)
  with playback_ok_with_column[OF _ wf hc dist, of "''outro_triggered''" "Integer 0"]
  show ?thesis by (simp add: playback_ok_def)
qed

lemma set_outro_triggered_playback_ok:
  assumes ok: "playback_ok db"
  shows "playback_ok (snd (set_outro_triggered f trig db))"
proof -
  from playback_okD[OF ok] obtain t where t: "playback db = Some t" and wf: "wf_table t"
    and hc: "has_cols t [''filename'', ''position'', ''duration'', ''percent'', ''status'',
                  ''series_prefix'', ''series_suffix'']"
    and dist: "distinct (map (\<lambda>r. cell r ''filename'') (rows t))"
    by blast
  show ?thesis
  proof (cases "sql_upsert playback_key
             [(''filename'', Text f), (''outro_triggered'', Integer trig)]
             [(''outro_triggered'', Integer trig)] (Some t)")
    case (Inl e)
    with t ok show ?thesis by (cases e) (simp_all add: set_outro_triggered_def)
  next
    case (Inr t')
    from upsert_playback_keeps_invariant[OF wf dist _ Inr]
    have inv: "columns t' = columns t" "wf_table t'"
      "distinct (map (\<lambda>r. cell r ''filename'') (rows t'))"
      by simp_all
    with hc have "has_cols t' [''filename'', ''position'', ''duration'', ''percent'',
        ''status'', ''series_prefix'', ''series_suffix'']"
      by (simp add: has_cols_def)
    with inv Inr t show ?thesis by (simp add: set_outro_triggered_def playback_ok_def)
  qed
qed

lemma insert_or_update_playback: "playback (snd (insert_or_update p s vals db)) = playback db"
  by (simp add: insert_or_update_def split: sum.splits sql_error.splits)

lemma settings_ops_playback:
  "playback (snd (save_series_settings p s au si so i1 i2 cd db)) = playback db"
  "playback (snd (set_credits_duration p s dur db)) = playback db"
  "playback (snd (set_intro_markers p s i1' i2' db)) = playback db"
  "playback (snd (set_outro_marker p s i3 db)) = playback db"
  "playback (snd (clear_skip_markers p s ty db)) = playback db"
  by (simp_all add: save_series_settings_def set_credits_duration_def set_intro_markers_def
      set_outro_marker_def clear_skip_markers_def insert_or_update_playback Let_def
      split: sum.splits option.splits sql_error.splits)

lemma reachable_playback_ok: "reachable db \<Longrightarrow> playback_ok db"
proof (induction rule: reachable.induct)
  case r_fresh
  show ?case by (rule playback_ok_fresh)
next
  case (r_init_db db)
  then show ?case by (simp add: init_db_playback_ok)
next
  case (r_save_playback db f pos dur pct pre suf)
  then show ?case by (simp add: save_playback_keeps_ok)
next
  case (r_set_outro_triggered db f trig)
  then show ?case by (simp add: set_outro_triggered_playback_ok)
next
  case (r_save_series_settings db p s au si so i1 i2 cd)
  then show ?case by (simp add: playback_ok_cong[OF settings_ops_playback(1)])
next
  case (r_set_credits_duration db p s dur)
  then show ?case by (simp add: playback_ok_cong[OF settings_ops_playback(2)])
next
  case (r_set_intro_markers db p s i1 i2)
  then show ?case by (simp add: playback_ok_cong[OF settings_ops_playback(3)])
next
  case (r_set_outro_marker db p s i1)
  then show ?case by (simp add: playback_ok_cong[OF settings_ops_playback(4)])
next
  case (r_clear_skip_markers db p s ty)
  then show ?case by (simp add: playback_ok_cong[OF settings_ops_playback(5)])
qed

lemma playback_ok_at_most_one: "playback_ok db \<Longrightarrow> length (rows_for g db) \<le> 1"
proof -
  assume "playback_ok db"
  from playback_okD[OF this] obtain t where t: "playback db = Some t"
    and dist: "distinct (map (\<lambda>r. cell r ''filename'') (rows t))"
    by blast
  from distinct_filter_le_one[OF dist] t show ?thesis
    by (simp add: rows_for_def playback_rows_def)
qed

text \<open>
  What save_playback does on the stores the program can produce from a first start. For
  every store, save_playback twice with the same arguments leaves the same store as
  once. On a store whose playback table has the columns save_playback names and respects
  its primary key, save_playback("a.mkv", 10, 100, 10) followed by
  save_playback("a.mkv", 50, 100, 50) both succeed and leave exactly one row for a.mkv,
  with position 50, duration 100, percent 50 and status partial. Every store reachable
  from a first start is such a store and holds at most one playback row per filename.
\<close>

lemma save_playback_upsert_current_schema:
  "snd (save_playback f pos dur pct pre suf (snd (save_playback f pos dur pct pre suf db)))
     = snd (save_playback f pos dur pct pre suf db)
   \<and> (playback_ok db \<longrightarrow>
        fst (save_playback ''a.mkv'' 10 100 10 pre1 suf1 db) = Returned True \<and>
        fst (save_playback ''a.mkv'' 50 100 50 pre2 suf2
               (snd (save_playback ''a.mkv'' 10 100 10 pre1 suf1 db))) = Returned True \<and>
        (\<exists>r. rows_for ''a.mkv'' (snd (save_playback ''a.mkv'' 50 100 50 pre2 suf2
                                    (snd (save_playback ''a.mkv'' 10 100 10 pre1 suf1 db))))
               = [r] \<and>
             cell r ''position'' = Integer 50 \<and> cell r ''duration'' = Integer 100 \<and>
             cell r ''percent'' = Integer 50 \<and> cell r ''status'' = Text ''partial''))
   \<and> (reachable db' \<longrightarrow> playback_ok db' \<and> (\<forall>g. length (rows_for g db') \<le> 1))"
proof (intro conjI impI allI)
  show "snd (save_playback f pos dur pct pre suf (snd (save_playback f pos dur pct pre suf db)))
     = snd (save_playback f pos dur pct pre suf db)"
    by (rule save_playback_idem)
next
  have i: "sqlite_int 10" "sqlite_int 50" "sqlite_int 100" by (simp_all add: sqlite_int_def)
  assume ok: "playback_ok db"
  then show "fst (save_playback ''a.mkv'' 10 100 10 pre1 suf1 db) = Returned True"
    by (intro save_playback_ok(1) i)
  from ok have ok1: "playback_ok (snd (save_playback ''a.mkv'' 10 100 10 pre1 suf1 db))"
    by (rule save_playback_keeps_ok)
  then show "fst (save_playback ''a.mkv'' 50 100 50 pre2 suf2
               (snd (save_playback ''a.mkv'' 10 100 10 pre1 suf1 db))) = Returned True"
    by (intro save_playback_ok(1) i)
  from save_playback_ok(3)[OF ok1 i(2) i(3) i(2), of "''a.mkv''" pre2 suf2]
  show "\<exists>r. rows_for ''a.mkv'' (snd (save_playback ''a.mkv'' 50 100 50 pre2 suf2
                                    (snd (save_playback ''a.mkv'' 10 100 10 pre1 suf1 db))))
               = [r] \<and>
             cell r ''position'' = Integer 50 \<and> cell r ''duration'' = Integer 100 \<and>
             cell r ''percent'' = Integer 50 \<and> cell r ''status'' = Text ''partial''"
    by (auto simp: calculate_status_def opt_text_def)
next
  assume "reachable db'"
  then show "playback_ok db'" by (rule reachable_playback_ok)
next
  fix g
  assume "reachable db'"
  then show "length (rows_for g db') \<le> 1"
    by (intro playback_ok_at_most_one reachable_playback_ok)
qed

text \<open>
  C2. Claimed: for every store state, save_playback("a.mkv", 10, 100, 10) followed by
  save_playback("a.mkv", 50, 100, 50) leaves exactly one row for a.mkv with position=50,
  percent=50, status=partial. The code on the store that version 1.0.0 left, opened by
  this version: init_db succeeds but adds no status column; both calls then name the
  missing column status, the caught error makes each return False, and the record of
  a.mkv stays at position 10, percent 10, with no status.
\<close>

theorem save_playback_after_upgrade_from_v1:
  "fst (init_db store_v1)
   \<and> save_playback ''a.mkv'' 10 100 10 None None (snd (init_db store_v1))
       = (Returned False, snd (init_db store_v1))
   \<and> save_playback ''a.mkv'' 50 100 50 None None
         (snd (save_playback ''a.mkv'' 10 100 10 None None (snd (init_db store_v1))))
       = (Returned False, snd (init_db store_v1))
   \<and> map (\<lambda>r. (cell r ''position'', cell r ''percent'', map_of r ''status''))
         (rows_for ''a.mkv''
            (snd (save_playback ''a.mkv'' 50 100 50 None None
                    (snd (save_playback ''a.mkv'' 10 100 10 None None
                            (snd (init_db store_v1)))))))
       = [(Integer 10, Integer 10, None)]"
proof -
  have f: "save_playback ''a.mkv'' x 100 y None None (snd (init_db store_v1))
       = (Returned False, snd (init_db store_v1))" for x y
    unfolding migrated_v1_eq
    by (simp add: save_playback_def sql_upsert_def has_cols_def playback_values_def
        playback_schema_v1_def playback_key_def)
  have r: "map (\<lambda>r. (cell r ''position'', cell r ''percent'', map_of r ''status''))
         (rows_for ''a.mkv'' (snd (init_db store_v1))) = [(Integer 10, Integer 10, None)]"
    unfolding migrated_v1_eq
    by (simp add: rows_for_def playback_rows_def cell_def)
  have i: "fst (init_db store_v1)" by (simp add: init_db_eq)
  from f r i show ?thesis by simp
qed

section \<open>Saving playback: the columns an overwrite leaves alone\<close>

lemma save_playback_existing:
  assumes t: "playback db = Some t"
    and i: "i < length (rows t)"
    and fi: "cell (rows t ! i) ''filename'' = Text f"
  shows "\<exists>t'. snd (save_playback f pos dur pct pre suf db) = db\<lparr>playback := Some t'\<rparr> \<and>
           columns t' = columns t \<and>
           (rows t' = rows t \<and> fst (save_playback f pos dur pct pre suf db) \<noteq> Returned True \<or>
            rows t' = map (\<lambda>r. if cell r ''filename'' = Text f
                                then assign (playback_values pos dur pct pre suf) r else r)
                        (rows t) \<and> fst (save_playback f pos dur pct pre suf db) = Returned True)"
proof (cases "has_cols t (''filename'' # map fst (playback_values pos dur pct pre suf) @
               ''filename'' # map fst (playback_values pos dur pct pre suf)) \<and>
              list_all binds (map snd (playback_values pos dur pct pre suf) @
                              map snd (playback_values pos dur pct pre suf))")
  case True
  from i fi have "list_ex (\<lambda>r. cell r ''filename'' = Text f) (rows t)"
    unfolding list_ex_iff by (metis nth_mem)
  with True t have "save_playback f pos dur pct pre suf db =
      (Returned True, db\<lparr>playback := Some (t\<lparr>rows := map (\<lambda>r. if cell r ''filename'' = Text f
                                then assign (playback_values pos dur pct pre suf) r else r)
                        (rows t)\<rparr>)\<rparr>)"
    by (simp add: save_playback_def sql_upsert_playback)
  then show ?thesis
    by (intro exI[of _ "t\<lparr>rows := map (\<lambda>r. if cell r ''filename'' = Text f
                                then assign (playback_values pos dur pct pre suf) r else r)
                        (rows t)\<rparr>"]) simp
next
  case False
  with t have "save_playback f pos dur pct pre suf db = (Returned False, db) \<or>
      save_playback f pos dur pct pre suf db = (Raised OverflowError, db)"
    by (cases "has_cols t (''filename'' # map fst (playback_values pos dur pct pre suf) @
               ''filename'' # map fst (playback_values pos dur pct pre suf))")
       (simp_all add: save_playback_def sql_upsert_playback Let_def)
  with t show ?thesis by (intro exI[of _ t]) auto
qed

text \<open>
  C10. When save_playback is called for a filename that has a row, the table keeps its
  columns and the number and order of its rows, and the row keeps its outro_triggered
  and its description and, in general, every cell other than position, duration,
  percent, status, series_prefix and series_suffix; the settings table is untouched. On
  a store whose playback table has the columns save_playback names the call succeeds
  and those six cells hold the new values when position, duration and percent are
  integers SQLite stores, and raises OverflowError, changing nothing, when one is not.
\<close>

theorem save_playback_overwrite_frame:
  "playback db = Some t \<and> i < length (rows t) \<and> cell (rows t ! i) ''filename'' = Text f \<longrightarrow>
     (\<exists>t'. snd (save_playback f pos dur pct pre suf db) = db\<lparr>playback := Some t'\<rparr> \<and>
        columns t' = columns t \<and> length (rows t') = length (rows t) \<and>
        cell (rows t' ! i) ''filename'' = Text f \<and>
        cell (rows t' ! i) ''outro_triggered'' = cell (rows t ! i) ''outro_triggered'' \<and>
        cell (rows t' ! i) ''description'' = cell (rows t ! i) ''description'' \<and>
        (\<forall>c. c \<notin> set [''position'', ''duration'', ''percent'', ''status'', ''series_prefix'',
                        ''series_suffix''] \<longrightarrow>
             cell (rows t' ! i) c = cell (rows t ! i) c) \<and>
        (playback_ok db \<and> sqlite_int pos \<and> sqlite_int dur \<and> sqlite_int pct \<longrightarrow>
           fst (save_playback f pos dur pct pre suf db) = Returned True \<and>
           cell (rows t' ! i) ''position'' = Integer pos \<and>
           cell (rows t' ! i) ''duration'' = Integer dur \<and>
           cell (rows t' ! i) ''percent'' = Integer pct \<and>
           cell (rows t' ! i) ''status'' = opt_text (calculate_status pct) \<and>
           cell (rows t' ! i) ''series_prefix'' = opt_text pre \<and>
           cell (rows t' ! i) ''series_suffix'' = opt_text suf) \<and>
        (playback_ok db \<and> \<not> (sqlite_int pos \<and> sqlite_int dur \<and> sqlite_int pct) \<longrightarrow>
           save_playback f pos dur pct pre suf db = (Raised OverflowError, db)))"
proof
  let ?upd = "playback_values pos dur pct pre suf"
  let ?g = "\<lambda>r. if cell r ''filename'' = Text f then assign ?upd r else r"
  assume a: "playback db = Some t \<and> i < length (rows t) \<and>
     cell (rows t ! i) ''filename'' = Text f"
  then have t: "playback db = Some t" and i: "i < length (rows t)"
    and fi: "cell (rows t ! i) ''filename'' = Text f"
    by simp_all
  from save_playback_existing[OF t i fi, of pos dur pct pre suf] obtain t'
    where res: "snd (save_playback f pos dur pct pre suf db) = db\<lparr>playback := Some t'\<rparr>"
      and cols: "columns t' = columns t"
      and rows: "rows t' = rows t \<and> fst (save_playback f pos dur pct pre suf db) \<noteq> Returned True \<or>
            rows t' = map ?g (rows t) \<and> fst (save_playback f pos dur pct pre suf db) = Returned True"
    by blast
  have other: "cell (?g r) c = cell r c"
    if "c \<notin> set [''position'', ''duration'', ''percent'', ''status'', ''series_prefix'',
                        ''series_suffix'']" for r c
  proof -
    from that have "map_of ?upd c = None" by (simp add: playback_values_def)
    then show ?thesis by (simp add: cell_assign_other)
  qed
  have frame: "cell (rows t' ! i) c = cell (rows t ! i) c"
    if "c \<notin> set [''position'', ''duration'', ''percent'', ''status'', ''series_prefix'',
                        ''series_suffix'']" for c
    using rows i other[OF that] by auto
  have len: "length (rows t') = length (rows t)" using rows by auto
  have ovf: "save_playback f pos dur pct pre suf db = (Raised OverflowError, db)"
    if ok: "playback_ok db" and nb: "\<not> (sqlite_int pos \<and> sqlite_int dur \<and> sqlite_int pct)"
  proof -
    from playback_okD[OF ok] t
    have hc: "has_cols t [''filename'', ''position'', ''duration'', ''percent'', ''status'',
                  ''series_prefix'', ''series_suffix'']"
      by simp
    from nb have "\<not> list_all binds (map snd ?upd @ map snd ?upd)"
      by (auto simp: playback_values_def binds_def)
    with has_cols_playback_values[OF hc] t show ?thesis
      by (simp add: save_playback_def sql_upsert_playback)
  qed
  have vals: "fst (save_playback f pos dur pct pre suf db) = Returned True \<and>
           cell (rows t' ! i) ''position'' = Integer pos \<and>
           cell (rows t' ! i) ''duration'' = Integer dur \<and>
           cell (rows t' ! i) ''percent'' = Integer pct \<and>
           cell (rows t' ! i) ''status'' = opt_text (calculate_status pct) \<and>
           cell (rows t' ! i) ''series_prefix'' = opt_text pre \<and>
           cell (rows t' ! i) ''series_suffix'' = opt_text suf"
    if ok: "playback_ok db" and rng: "sqlite_int pos" "sqlite_int dur" "sqlite_int pct"
  proof -
    from playback_okD[OF ok] t have wf: "wf_table t"
      and hc: "has_cols t [''filename'', ''position'', ''duration'', ''percent'', ''status'',
                  ''series_prefix'', ''series_suffix'']"
      by simp_all
    from save_playback_ok(1)[OF ok rng] rows
    have ok1: "fst (save_playback f pos dur pct pre suf db) = Returned True"
      and r': "rows t' = map ?g (rows t)"
      by auto
    from wf i have keys: "map fst (rows t ! i) = map fst (columns t)"
      by (simp add: wf_table_def list_all_length)
    have m: "c \<in> set [''position'', ''duration'', ''percent'', ''status'',
                  ''series_prefix'', ''series_suffix''] \<Longrightarrow> c \<in> set (map fst (rows t ! i))" for c
      using hc unfolding keys by (auto simp: has_cols_def)
    have ri: "rows t' ! i = assign ?upd (rows t ! i)" using r' i fi by simp
    show ?thesis unfolding ri
      by (intro conjI ok1 cell_assign_hit m) (simp_all add: playback_values_def)
  qed
  from res cols len fi frame vals ovf
  show "\<exists>t'. snd (save_playback f pos dur pct pre suf db) = db\<lparr>playback := Some t'\<rparr> \<and>
        columns t' = columns t \<and> length (rows t') = length (rows t) \<and>
        cell (rows t' ! i) ''filename'' = Text f \<and>
        cell (rows t' ! i) ''outro_triggered'' = cell (rows t ! i) ''outro_triggered'' \<and>
        cell (rows t' ! i) ''description'' = cell (rows t ! i) ''description'' \<and>
        (\<forall>c. c \<notin> set [''position'', ''duration'', ''percent'', ''status'', ''series_prefix'',
                        ''series_suffix''] \<longrightarrow>
             cell (rows t' ! i) c = cell (rows t ! i) c) \<and>
        (playback_ok db \<and> sqlite_int pos \<and> sqlite_int dur \<and> sqlite_int pct \<longrightarrow>
           fst (save_playback f pos dur pct pre suf db) = Returned True \<and>
           cell (rows t' ! i) ''position'' = Integer pos \<and>
           cell (rows t' ! i) ''duration'' = Integer dur \<and>
           cell (rows t' ! i) ''percent'' = Integer pct \<and>
           cell (rows t' ! i) ''status'' = opt_text (calculate_status pct) \<and>
           cell (rows t' ! i) ''series_prefix'' = opt_text pre \<and>
           cell (rows t' ! i) ''series_suffix'' = opt_text suf) \<and>
        (playback_ok db \<and> \<not> (sqlite_int pos \<and> sqlite_int dur \<and> sqlite_int pct) \<longrightarrow>
           save_playback f pos dur pct pre suf db = (Raised OverflowError, db))"
    by (intro exI[of _ t']) simp
qed


lemma set_outro_triggered_fresh:
  "snd (set_outro_triggered ''a.mkv'' 1 fresh) =
     fresh\<lparr>playback := Some \<lparr>columns = playback_schema,
        rows = [[(''filename'', Text ''a.mkv''), (''position'', Null), (''duration'', Null),
                 (''percent'', Null), (''status'', Null), (''series_prefix'', Null),
                 (''series_suffix'', Null), (''description'', Null),
                 (''outro_triggered'', Integer 1)]]\<rparr>\<rparr>"
  by (simp add: fresh_eq set_outro_triggered_def sql_upsert_def has_cols_def
      playback_schema_def playback_key_def new_row_def assign_def binds_def sqlite_int_def)

theorem save_playback_overwrite_frame_witness:
  "playback_ok (snd (set_outro_triggered ''a.mkv'' 1 fresh))
   \<and> (\<exists>t. playback (snd (set_outro_triggered ''a.mkv'' 1 fresh)) = Some t \<and>
          0 < length (rows t) \<and> cell (rows t ! 0) ''filename'' = Text ''a.mkv'' \<and>
          cell (rows t ! 0) ''outro_triggered'' = Integer 1 \<and>
          cell (rows t ! 0) ''description'' = Null)
   \<and> (\<exists>t'. snd (save_playback ''a.mkv'' 50 100 50 None None
                   (snd (set_outro_triggered ''a.mkv'' 1 fresh)))
              = (snd (set_outro_triggered ''a.mkv'' 1 fresh))\<lparr>playback := Some t'\<rparr> \<and>
          cell (rows t' ! 0) ''outro_triggered'' = Integer 1 \<and>
          cell (rows t' ! 0) ''description'' = Null \<and>
          cell (rows t' ! 0) ''position'' = Integer 50 \<and>
          cell (rows t' ! 0) ''percent'' = Integer 50)"
proof -
  let ?db = "snd (set_outro_triggered ''a.mkv'' 1 fresh)"
  let ?t = "\<lparr>columns = playback_schema,
        rows = [[(''filename'', Text ''a.mkv''), (''position'', Null), (''duration'', Null),
                 (''percent'', Null), (''status'', Null), (''series_prefix'', Null),
                 (''series_suffix'', Null), (''description'', Null),
                 (''outro_triggered'', Integer 1)]]\<rparr>"
  have ok: "playback_ok ?db"
    by (rule set_outro_triggered_playback_ok) (rule playback_ok_fresh)
  have t: "playback ?db = Some ?t" by (simp add: set_outro_triggered_fresh)
  have h: "0 < length (rows ?t)" "cell (rows ?t ! 0) ''filename'' = Text ''a.mkv''"
    "cell (rows ?t ! 0) ''outro_triggered'' = Integer 1"
    "cell (rows ?t ! 0) ''description'' = Null"
    by (simp_all add: cell_def)
  have rng: "sqlite_int 50" "sqlite_int 100" by (simp_all add: sqlite_int_def)
  from save_playback_overwrite_frame[of ?db ?t 0 "''a.mkv''" 50 100 50 None None] t h(1,2) ok rng
  obtain t' where "snd (save_playback ''a.mkv'' 50 100 50 None None ?db)
              = ?db\<lparr>playback := Some t'\<rparr>"
    and "cell (rows t' ! 0) ''outro_triggered'' = cell (rows ?t ! 0) ''outro_triggered''"
    and "cell (rows t' ! 0) ''description'' = cell (rows ?t ! 0) ''description''"
    and "cell (rows t' ! 0) ''position'' = Integer 50"
    and "cell (rows t' ! 0) ''percent'' = Integer 50"
    by auto
  with h(3,4) have "\<exists>t'. snd (save_playback ''a.mkv'' 50 100 50 None None ?db)
              = ?db\<lparr>playback := Some t'\<rparr> \<and>
          cell (rows t' ! 0) ''outro_triggered'' = Integer 1 \<and>
          cell (rows t' ! 0) ''description'' = Null \<and>
          cell (rows t' ! 0) ''position'' = Integer 50 \<and>
          cell (rows t' ! 0) ''percent'' = Integer 50"
    by auto
  moreover from t h have "\<exists>t. playback ?db = Some t \<and>
          0 < length (rows t) \<and> cell (rows t ! 0) ''filename'' = Text ''a.mkv'' \<and>
          cell (rows t ! 0) ''outro_triggered'' = Integer 1 \<and>
          cell (rows t ! 0) ''description'' = Null"
    by blast
  ultimately show ?thesis using ok by blast
qed

section \<open>The batch query\<close>

lemma basename_join:
  "CHR ''/'' \<notin> set f \<Longrightarrow> basename (d @ CHR ''/'' # f) = f"
proof -
  assume a: "CHR ''/'' \<notin> set f"
  have "takeWhile (\<lambda>ch. ch \<noteq> CHR ''/'') (rev f @ CHR ''/'' # rev d) = rev f"
    using a by (simp add: takeWhile_append)
  then show ?thesis by (simp add: basename_def)
qed

lemma map_of_fill_missing:
  "map_of (fill_missing fs res) k =
     (if map_of res k \<noteq> None then map_of res k
      else if k \<in> set fs then Some (Integer 0) else None)"
  by (induction fs arbitrary: res) (auto simp: update_conv')

lemma map_of_zero_dict:
  "map_of (foldl (\<lambda>result filename. AList.update filename (Integer 0) result) res fs) k =
     (if k \<in> set fs then Some (Integer 0) else map_of res k)"
  by (induction fs arbitrary: res) (auto simp: update_conv')



lemma fill_fetched_exact:
  assumes "\<forall>r\<in>set rs. \<exists>g. cell r ''filename'' = Text (d @ ''/'' @ g) \<and> CHR ''/'' \<notin> set g"
    and "distinct (map (\<lambda>r. cell r ''filename'') rs)"
  shows "map_of (fill_fetched (map (\<lambda>r. [cell r ''filename'', cell r ''percent'']) rs) res) k =
     (case filter (\<lambda>r. cell r ''filename'' = Text (d @ ''/'' @ k)) rs of
        [] \<Rightarrow> map_of res k
      | r # _ \<Rightarrow> Some (cell r ''percent''))"
  using assms
proof (induction rs arbitrary: res)
  case Nil
  then show ?case by simp
next
  case (Cons r rs)
  from Cons.prems(1) obtain g where g: "cell r ''filename'' = Text (d @ ''/'' @ g)"
    and ng: "CHR ''/'' \<notin> set g"
    by auto
  from Cons.prems have ih: "map_of (fill_fetched
        (map (\<lambda>r. [cell r ''filename'', cell r ''percent'']) rs) res') k =
     (case filter (\<lambda>r. cell r ''filename'' = Text (d @ ''/'' @ k)) rs of
        [] \<Rightarrow> map_of res' k
      | r # _ \<Rightarrow> Some (cell r ''percent''))" for res'
    by (intro Cons.IH) simp_all
  show ?case
  proof (cases "g = k")
    case True
    from Cons.prems(2) g True
    have "filter (\<lambda>r. cell r ''filename'' = Text (d @ ''/'' @ k)) rs = []"
      by (force simp: filter_empty_conv)
    with g ng True show ?thesis
      by (simp add: ih basename_join update_conv')
  next
    case False
    with g ng show ?thesis
      by (simp add: ih basename_join update_conv' split: list.splits)
  qed
qed


lemma sort_key_short: "length xs \<le> 1 \<Longrightarrow> sort_key k xs = xs"
  by (cases xs) (simp_all add: length_Suc_conv)

lemma get_playback_batch_eq:
  "filenames \<noteq> [] \<Longrightarrow>
   get_playback_batch directory filenames db =
     (case playback db of
        None \<Rightarrow> foldl (\<lambda>result filename. AList.update filename (Integer 0) result) [] filenames
      | Some t \<Rightarrow>
          if has_cols t [''filename'', ''percent''] \<and> length filenames \<le> max_variable_number
          then fill_missing filenames
                 (fill_fetched
                    (map (\<lambda>r. [cell r ''filename'', cell r ''percent''])
                       (sort_key (\<lambda>r. text_of (cell r ''filename''))
                          (filter (\<lambda>r. cell r ''filename'' \<in>
                                     Text ` (\<lambda>g. directory @ ''/'' @ g) ` set filenames)
                             (rows t)))) [])
          else foldl (\<lambda>result filename. AList.update filename (Integer 0) result) [] filenames)"
proof -
  have "(\<lambda>r. cell r ''filename'' \<noteq> Null \<and>
            cell r ''filename'' \<in> Text ` (\<lambda>g. directory @ ''/'' @ g) ` set filenames)
        = (\<lambda>r. cell r ''filename'' \<in> Text ` (\<lambda>g. directory @ ''/'' @ g) ` set filenames)"
    by auto
  then show "filenames \<noteq> [] \<Longrightarrow> ?thesis"
    by (simp add: get_playback_batch_def sql_select_in_def has_cols_def image_image
        split: option.splits)
qed

text \<open>
  On a store whose playback table respects its primary key, with slash-free names and a
  request within the parameter limit, every requested filename gets the stored percent
  of the record under its joined path, 0 when there is none.
\<close>

lemma get_playback_batch_stored:
  assumes sl: "list_all (\<lambda>g. CHR ''/'' \<notin> set g) filenames"
    and fin: "f \<in> set filenames"
    and ok: "playback_ok db"
    and len: "length filenames \<le> max_variable_number"
  shows "map_of (get_playback_batch directory filenames db) f =
          Some (case rows_for (directory @ ''/'' @ f) db of
                  [] \<Rightarrow> Integer 0
                | r # _ \<Rightarrow> cell r ''percent'')"
proof -
  let ?Q = "\<lambda>r. cell r ''filename'' \<in> Text ` (\<lambda>g. directory @ ''/'' @ g) ` set filenames"
  let ?k = "\<lambda>r. text_of (cell r ''filename'')"
  from fin have ne: "filenames \<noteq> []" by auto
  from playback_okD[OF ok] obtain t where t: "playback db = Some t"
    and hc: "has_cols t [''filename'', ''position'', ''duration'', ''percent'', ''status'',
                  ''series_prefix'', ''series_suffix'']"
    and dist: "distinct (map (\<lambda>r. cell r ''filename'') (rows t))"
    by blast
  from hc have hc2: "has_cols t [''filename'', ''percent'']" by (simp add: has_cols_def)
  have 1: "\<forall>r\<in>set (sort_key ?k (filter ?Q (rows t))).
       \<exists>g. cell r ''filename'' = Text (directory @ ''/'' @ g) \<and> CHR ''/'' \<notin> set g"
    using sl by (auto simp: list_all_iff)
  have "distinct (map (\<lambda>r. cell r ''filename'') (filter ?Q (rows t)))"
    using dist by (rule distinct_map_filter)
  then have 2: "distinct (map (\<lambda>r. cell r ''filename'') (sort_key ?k (filter ?Q (rows t))))"
    by (simp add: distinct_map)
  have "filter (\<lambda>r. cell r ''filename'' = Text (directory @ ''/'' @ f)) (filter ?Q (rows t))
      = rows_for (directory @ ''/'' @ f) db"
    using fin t by (auto simp: rows_for_def playback_rows_def intro!: filter_cong)
  then have "filter (\<lambda>r. cell r ''filename'' = Text (directory @ ''/'' @ f))
               (sort_key ?k (filter ?Q (rows t)))
      = sort_key ?k (rows_for (directory @ ''/'' @ f) db)"
    unfolding filter_sort by simp
  also have "\<dots> = rows_for (directory @ ''/'' @ f) db"
    by (rule sort_key_short) (rule playback_ok_at_most_one[OF ok])
  finally have 3: "filter (\<lambda>r. cell r ''filename'' = Text (directory @ ''/'' @ f))
               (sort_key ?k (filter ?Q (rows t))) = rows_for (directory @ ''/'' @ f) db" .
  have "map_of (fill_fetched (map (\<lambda>r. [cell r ''filename'', cell r ''percent''])
                 (sort_key ?k (filter ?Q (rows t)))) []) f =
        (case rows_for (directory @ ''/'' @ f) db of [] \<Rightarrow> None
         | r # _ \<Rightarrow> Some (cell r ''percent''))"
    unfolding fill_fetched_exact[OF 1 2] 3 by (simp split: list.splits)
  with fin t hc2 len show ?thesis
    by (simp add: get_playback_batch_eq[OF ne] map_of_fill_missing split: list.splits)
qed

text \<open>
  Past the parameter limit the statement is refused, the error is caught, and every
  requested filename gets 0, whatever the store holds.
\<close>

lemma get_playback_batch_too_many:
  assumes "max_variable_number < length filenames" and "f \<in> set filenames"
  shows "map_of (get_playback_batch directory filenames db) f = Some (Integer 0)"
proof -
  from assms(2) have ne: "filenames \<noteq> []" by auto
  from assms show ?thesis
    by (simp add: get_playback_batch_eq[OF ne] map_of_zero_dict split: option.splits)
qed



text \<open>
  The fetched rows come in key order, not in insertion order: with d/x.mkv (percent 10)
  saved before d/sub/x.mkv (percent 50), the row of d/sub/x.mkv is fetched first and the
  row of d/x.mkv last, so the entry of x.mkv ends as 10.
\<close>

lemma two_paths_rows:
  "map (\<lambda>r. (cell r ''filename'', cell r ''percent'')) (playback_rows two_paths)
     = [(Text ''d/x.mkv'', Integer 10), (Text ''d/sub/x.mkv'', Integer 50)]"
  by (simp add: two_paths_def fresh_eq save_playback_def sql_upsert_def has_cols_def
      playback_values_def playback_schema_def playback_key_def new_row_def assign_def
      calculate_status_def opt_text_def same_key_def cell_def binds_def sqlite_int_def
      playback_rows_def)

lemma get_playback_batch_key_order:
  "get_playback_batch ''d'' [''x.mkv'', ''sub/x.mkv''] two_paths
     = [(''x.mkv'', Integer 10), (''sub/x.mkv'', Integer 0)]"
  by (simp add: two_paths_def fresh_eq save_playback_def sql_upsert_def has_cols_def
      playback_values_def playback_schema_def playback_key_def new_row_def assign_def
      calculate_status_def opt_text_def same_key_def cell_def binds_def sqlite_int_def
      get_playback_batch_def sql_select_in_def basename_def max_variable_number_def text_of_def
      less_eq_char_def less_char_def)



section \<open>Other versions of a series\<close>

lemma sql_le_refl: "sql_le v v"
  by (cases v) simp_all

lemma sql_le_total: "sql_le a b \<or> sql_le b a"
  by (cases a; cases b) auto

lemma sql_le_trans: "sql_le a b \<Longrightarrow> sql_le b c \<Longrightarrow> sql_le a c"
  by (cases a; cases b; cases c) auto

lemma sql_le_Null: "sql_le v Null \<Longrightarrow> v = Null"
  by (cases v) simp_all

lemma sql_max_fold:
  "sql_le a (foldl (\<lambda>m v. if sql_le m v then v else m) a vs)
   \<and> (\<forall>v\<in>set vs. sql_le v (foldl (\<lambda>m v. if sql_le m v then v else m) a vs))
   \<and> (foldl (\<lambda>m v. if sql_le m v then v else m) a vs = a
      \<or> foldl (\<lambda>m v. if sql_le m v then v else m) a vs \<in> set vs)"
proof (induction vs arbitrary: a)
  case Nil
  show ?case by (simp add: sql_le_refl)
next
  case (Cons x xs)
  let ?b = "if sql_le a x then x else a"
  let ?r = "foldl (\<lambda>m v. if sql_le m v then v else m) ?b xs"
  from Cons.IH[of ?b] have 1: "sql_le ?b ?r" and 2: "\<forall>v\<in>set xs. sql_le v ?r"
    and 3: "?r = ?b \<or> ?r \<in> set xs"
    by blast+
  have ab: "sql_le a ?b" by (simp add: sql_le_refl)
  have xb: "sql_le x ?b" using sql_le_total[of a x] by (auto simp: sql_le_refl)
  from ab 1 have "sql_le a ?r" by (rule sql_le_trans)
  moreover from xb 1 have "sql_le x ?r" by (rule sql_le_trans)
  moreover from 3 have "?r = a \<or> ?r = x \<or> ?r \<in> set xs" by (auto split: if_splits)
  ultimately show ?case using 2 by auto
qed

lemma sql_max_greatest:
  "vs \<noteq> [] \<Longrightarrow> sql_max vs \<in> set vs \<and> (\<forall>v\<in>set vs. sql_le v (sql_max vs))"
proof -
  assume ne: "vs \<noteq> []"
  from sql_max_fold[of Null vs]
  have 2: "\<forall>v\<in>set vs. sql_le v (sql_max vs)" and 3: "sql_max vs = Null \<or> sql_max vs \<in> set vs"
    by (simp_all add: sql_max_def)
  have "sql_max vs \<in> set vs"
  proof (cases "sql_max vs = Null")
    case True
    from ne obtain v where v: "v \<in> set vs" by (cases vs) auto
    with 2 True have "v = Null" by (auto dest: sql_le_Null)
    with v True show ?thesis by simp
  next
    case False
    with 3 show ?thesis by simp
  qed
  with 2 show ?thesis by simp
qed


lemma case_rev_last:
  "xs \<noteq> [] \<Longrightarrow> (case rev xs of [] \<Rightarrow> d | r # _ \<Rightarrow> g r) = g (last xs)"
  by (induction xs rule: rev_induct) simp_all

lemma in_series_Text:
  "in_series (Text p) s = (\<lambda>r. cell r ''series_prefix'' = Text p \<and>
      coalesce (cell r ''series_suffix'') = s)"
  by (rule ext) (simp add: in_series_def)

lemma find_other_versions_eq:
  assumes "playback db = Some t"
    and "has_cols t [''series_suffix'', ''filename'', ''series_prefix'', ''percent'']"
  shows "find_other_versions p cur db =
     rev (remdups (rev (map (\<lambda>r. (coalesce (cell r ''series_suffix''),
                                   last_filename (Text p) (coalesce (cell r ''series_suffix''))
                                     (rows t),
                                   max_percent (Text p) (coalesce (cell r ''series_suffix''))
                                     (rows t)))
        (filter (\<lambda>r. cell r ''series_prefix'' = Text p \<and>
                      coalesce (cell r ''series_suffix'') \<noteq> coalesce (opt_text cur))
           (rows t)))))"
proof -
  have "map (\<lambda>p1. (coalesce (cell p1 ''series_suffix''),
                   last_filename (cell p1 ''series_prefix'')
                     (coalesce (cell p1 ''series_suffix'')) (rows t),
                   max_percent (cell p1 ''series_prefix'')
                     (coalesce (cell p1 ''series_suffix'')) (rows t)))
          (filter (\<lambda>r. cell r ''series_prefix'' = Text p \<and>
                      coalesce (cell r ''series_suffix'') \<noteq> coalesce (opt_text cur)) (rows t))
      = map (\<lambda>r. (coalesce (cell r ''series_suffix''),
                   last_filename (Text p) (coalesce (cell r ''series_suffix'')) (rows t),
                   max_percent (Text p) (coalesce (cell r ''series_suffix'')) (rows t)))
          (filter (\<lambda>r. cell r ''series_prefix'' = Text p \<and>
                      coalesce (cell r ''series_suffix'') \<noteq> coalesce (opt_text cur)) (rows t))"
    by (rule map_cong) auto
  then show ?thesis
    unfolding find_other_versions_def using assms by (simp only: option.case if_True)
qed

text \<open>
  C8. On every store whose playback table has the four columns the query names,
  find_other_versions(prefix, current_suffix) returns exactly one entry for each
  distinct suffix (NULL read as the empty string) that occurs in a row with that prefix
  and differs from current_suffix (None read as the empty string), and no other entry.
  The entry of a suffix carries the filename of the last row, in insertion order, among
  the rows with that prefix and suffix, and the greatest percent among those rows (in
  the order of SQLite values, where NULL is below every integer).
\<close>

theorem find_other_versions_entries:
  "playback db = Some t \<and>
   has_cols t [''series_suffix'', ''filename'', ''series_prefix'', ''percent''] \<longrightarrow>
     distinct (map fst (find_other_versions p cur db))
     \<and> set (map fst (find_other_versions p cur db)) =
         {s. \<exists>r\<in>set (rows t). cell r ''series_prefix'' = Text p \<and>
                coalesce (cell r ''series_suffix'') = s \<and> s \<noteq> coalesce (opt_text cur)}
     \<and> (\<forall>s fn m. (s, fn, m) \<in> set (find_other_versions p cur db) \<longrightarrow>
          (\<exists>grp. grp = filter (\<lambda>r. cell r ''series_prefix'' = Text p \<and>
                                  coalesce (cell r ''series_suffix'') = s) (rows t) \<and>
             grp \<noteq> [] \<and>
             fn = cell (last grp) ''filename'' \<and>
             m \<in> set (map (\<lambda>r. cell r ''percent'') grp) \<and>
             (\<forall>r\<in>set grp. sql_le (cell r ''percent'') m)))"
proof
  let ?W = "\<lambda>r. cell r ''series_prefix'' = Text p \<and>
                      coalesce (cell r ''series_suffix'') \<noteq> coalesce (opt_text cur)"
  let ?G = "\<lambda>s. (s, last_filename (Text p) s (rows t), max_percent (Text p) s (rows t))"
  let ?sg = "\<lambda>r. coalesce (cell r ''series_suffix'')"
  let ?res = "find_other_versions p cur db"
  assume a: "playback db = Some t \<and>
   has_cols t [''series_suffix'', ''filename'', ''series_prefix'', ''percent'']"
  then have res: "?res = rev (remdups (rev (map (\<lambda>r. ?G (?sg r)) (filter ?W (rows t)))))"
    by (simp add: find_other_versions_eq)
  have set_res: "set ?res = (\<lambda>r. ?G (?sg r)) ` {r \<in> set (rows t). ?W r}"
    unfolding res by auto
  have dres: "distinct ?res" unfolding res by simp
  have shape: "z = ?G (fst z)" if "z \<in> set ?res" for z
    using that unfolding set_res by auto
  have "inj_on fst (set ?res)"
  proof (rule inj_onI)
    fix x y assume "x \<in> set ?res" "y \<in> set ?res" "fst x = fst y"
    with shape[of x] shape[of y] show "x = y" by simp
  qed
  with dres have d: "distinct (map fst ?res)" by (simp add: distinct_map)
  have k: "set (map fst ?res) =
         {s. \<exists>r\<in>set (rows t). cell r ''series_prefix'' = Text p \<and>
                coalesce (cell r ''series_suffix'') = s \<and> s \<noteq> coalesce (opt_text cur)}"
    unfolding set_map set_res by (auto simp: image_iff)
  have e: "\<exists>grp. grp = filter (\<lambda>r. cell r ''series_prefix'' = Text p \<and>
                                  coalesce (cell r ''series_suffix'') = s) (rows t) \<and>
             grp \<noteq> [] \<and>
             fn = cell (last grp) ''filename'' \<and>
             m \<in> set (map (\<lambda>r. cell r ''percent'') grp) \<and>
             (\<forall>r\<in>set grp. sql_le (cell r ''percent'') m)"
    if mem: "(s, fn, m) \<in> set ?res" for s fn m
  proof -
    let ?grp = "filter (\<lambda>r. cell r ''series_prefix'' = Text p \<and>
                                  coalesce (cell r ''series_suffix'') = s) (rows t)"
    from mem obtain r where r: "r \<in> set (rows t)" "?W r" "?sg r = s"
      and fn: "fn = last_filename (Text p) s (rows t)"
      and m: "m = max_percent (Text p) s (rows t)"
      unfolding set_res by auto
    from r have ne: "?grp \<noteq> []" by (auto simp: filter_empty_conv)
    then have f: "fn = cell (last ?grp) ''filename''"
      unfolding fn last_filename_def in_series_Text by (rule case_rev_last)
    from ne have "map (\<lambda>r. cell r ''percent'') ?grp \<noteq> []" by simp
    from sql_max_greatest[OF this]
    have "m \<in> set (map (\<lambda>r. cell r ''percent'') ?grp)"
      and "\<forall>r\<in>set ?grp. sql_le (cell r ''percent'') m"
      unfolding m max_percent_def in_series_Text by simp_all
    with ne f show ?thesis by blast
  qed
  from d k e
  show "distinct (map fst ?res)
     \<and> set (map fst ?res) =
         {s. \<exists>r\<in>set (rows t). cell r ''series_prefix'' = Text p \<and>
                coalesce (cell r ''series_suffix'') = s \<and> s \<noteq> coalesce (opt_text cur)}
     \<and> (\<forall>s fn m. (s, fn, m) \<in> set ?res \<longrightarrow>
          (\<exists>grp. grp = filter (\<lambda>r. cell r ''series_prefix'' = Text p \<and>
                                  coalesce (cell r ''series_suffix'') = s) (rows t) \<and>
             grp \<noteq> [] \<and>
             fn = cell (last grp) ''filename'' \<and>
             m \<in> set (map (\<lambda>r. cell r ''percent'') grp) \<and>
             (\<forall>r\<in>set grp. sql_le (cell r ''percent'') m)))"
    by blast
qed


lemma versions_store_eq:
  "versions_store =
     fresh\<lparr>playback := Some \<lparr>columns = playback_schema,
        rows = [[(''filename'', Text ''e0.mkv''), (''position'', Integer 95),
                 (''duration'', Integer 100), (''percent'', Integer 95),
                 (''status'', Text ''watched''), (''series_prefix'', Text ''Show.S01''),
                 (''series_suffix'', Null), (''description'', Null),
                 (''outro_triggered'', Integer 0)],
                [(''filename'', Text ''e1.mkv''), (''position'', Integer 40),
                 (''duration'', Integer 100), (''percent'', Integer 40),
                 (''status'', Text ''partial''), (''series_prefix'', Text ''Show.S01''),
                 (''series_suffix'', Text ''720p.mkv''), (''description'', Null),
                 (''outro_triggered'', Integer 0)],
                [(''filename'', Text ''e2.mkv''), (''position'', Integer 70),
                 (''duration'', Integer 100), (''percent'', Integer 70),
                 (''status'', Text ''partial''), (''series_prefix'', Text ''Show.S01''),
                 (''series_suffix'', Text ''720p.mkv''), (''description'', Null),
                 (''outro_triggered'', Integer 0)],
                [(''filename'', Text ''e3.mkv''), (''position'', Integer 10),
                 (''duration'', Integer 100), (''percent'', Integer 10),
                 (''status'', Text ''partial''), (''series_prefix'', Text ''Show.S01''),
                 (''series_suffix'', Text ''1080p.mkv''), (''description'', Null),
                 (''outro_triggered'', Integer 0)]]\<rparr>\<rparr>"
  by (simp add: versions_store_def fresh_eq save_playback_def sql_upsert_def has_cols_def
      playback_values_def playback_schema_def playback_key_def new_row_def assign_def
      calculate_status_def opt_text_def same_key_def cell_def binds_def sqlite_int_def)

lemma find_other_versions_store:
  "find_other_versions ''Show.S01'' (Some ''1080p.mkv'') versions_store =
     [(Text [], Text ''e0.mkv'', Integer 95), (Text ''720p.mkv'', Text ''e2.mkv'', Integer 70)]"
  unfolding versions_store_eq
  by (simp add: fresh_eq find_other_versions_def has_cols_def playback_schema_def cell_def
      coalesce_def opt_text_def last_filename_def max_percent_def in_series_def sql_max_def)


theorem find_other_versions_entries_witness:
  "find_other_versions ''Show.S01'' (Some ''1080p.mkv'') versions_store =
     [(Text [], Text ''e0.mkv'', Integer 95), (Text ''720p.mkv'', Text ''e2.mkv'', Integer 70)]
   \<and> distinct (map fst (find_other_versions ''Show.S01'' (Some ''1080p.mkv'') versions_store))
   \<and> (\<exists>t. playback versions_store = Some t \<and>
          has_cols t [''series_suffix'', ''filename'', ''series_prefix'', ''percent''] \<and>
          (\<exists>grp. grp = filter (\<lambda>r. cell r ''series_prefix'' = Text ''Show.S01'' \<and>
                                  coalesce (cell r ''series_suffix'') = Text ''720p.mkv'') (rows t) \<and>
             grp \<noteq> [] \<and>
             Text ''e2.mkv'' = cell (last grp) ''filename'' \<and>
             Integer 70 \<in> set (map (\<lambda>r. cell r ''percent'') grp) \<and>
             (\<forall>r\<in>set grp. sql_le (cell r ''percent'') (Integer 70))))"
proof -
  obtain t where t: "playback versions_store = Some t"
    and hc: "has_cols t [''series_suffix'', ''filename'', ''series_prefix'', ''percent'']"
    by (simp add: versions_store_eq fresh_eq has_cols_def playback_schema_def)
  note th = find_other_versions_entries[of versions_store t "''Show.S01''" "Some ''1080p.mkv''"]
  from th t hc
  have d: "distinct (map fst (find_other_versions ''Show.S01'' (Some ''1080p.mkv'')
                                versions_store))"
    by blast
  have "(Text ''720p.mkv'', Text ''e2.mkv'', Integer 70)
        \<in> set (find_other_versions ''Show.S01'' (Some ''1080p.mkv'') versions_store)"
    by (simp add: find_other_versions_store)
  with th t hc have g: "(\<exists>grp. grp = filter (\<lambda>r. cell r ''series_prefix'' = Text ''Show.S01'' \<and>
                                  coalesce (cell r ''series_suffix'') = Text ''720p.mkv'') (rows t) \<and>
             grp \<noteq> [] \<and>
             Text ''e2.mkv'' = cell (last grp) ''filename'' \<and>
             Integer 70 \<in> set (map (\<lambda>r. cell r ''percent'') grp) \<and>
             (\<forall>r\<in>set grp. sql_le (cell r ''percent'') (Integer 70)))"
    by blast
  from d g t hc find_other_versions_store show ?thesis by blast
qed

section \<open>Clearing markers: the scopes that work, and the legacy column\<close>

text \<open>
  An unknown scope is rejected on every store, and scope intro clears the two intro
  markers of the row. The statements that name \<^verbatim>\<open>outro_start\<close> succeed on a store
  that still has that column, such as the store of version 1.0.0 after \<^verbatim>\<open>init_db\<close>.
\<close>

lemma clear_skip_markers_unknown:
  "marker_type \<noteq> ''intro'' \<Longrightarrow> marker_type \<noteq> ''outro'' \<Longrightarrow> marker_type \<noteq> ''all'' \<Longrightarrow>
   clear_skip_markers p s marker_type db = (False, db)"
  by (simp add: clear_skip_markers_def)

lemma clear_skip_markers_intro_fresh:
  "clear_skip_markers p s ''intro'' (snd (set_intro_markers p s 10 20 fresh)) =
     (True, fresh\<lparr>series_settings := Some \<lparr>columns = settings_schema,
        rows = [[(''series_prefix'', Text p), (''series_suffix'', Text s),
                 (''autoplay'', Integer 0), (''skip_intro'', Integer 0),
                 (''skip_outro'', Integer 0), (''intro_start'', Null),
                 (''intro_end'', Null), (''credits_duration'', Null),
                 (''description'', Null)]]\<rparr>\<rparr>)"
  unfolding set_intro_markers_fresh snd_conv
  by (simp add: fresh_eq clear_skip_markers_def sql_update_def has_cols_def settings_where_def
      settings_schema_def wh_match_def cell_def assign_def binds_def)

lemma outro_marker_on_migrated_v1:
  "fst (set_outro_marker ''Show'' ''S01'' 250 (snd (init_db store_v1))) = Returned True"
  "map (\<lambda>r. cell r ''outro_start'')
     (settings_rows (snd (set_outro_marker ''Show'' ''S01'' 250 (snd (init_db store_v1)))))
   = [Integer 250]"
  "fst (clear_skip_markers ''Show'' ''S01'' ''all'' (snd (init_db store_v1)))"
  "map (\<lambda>r. cell r ''outro_start'')
     (settings_rows (snd (clear_skip_markers ''Show'' ''S01'' ''all'' (snd (init_db store_v1)))))
   = [Null]"
  unfolding migrated_v1_eq
  by (simp_all add: set_outro_marker_def insert_or_update_def series_settings_exist_def
      clear_skip_markers_def sql_select_def sql_update_def has_cols_def settings_where_def
      settings_schema_v1_def wh_match_def cell_def assign_def settings_rows_def
      binds_def sqlite_int_def)

end
